theory Spec2Isabelle
  imports Main "HOL-Library.Word"
begin

section \<open>Operations settings (operations/config.go)\<close>

text \<open>
  \<^verbatim>\<open>time.Duration\<close> is a signed 64-bit count of nanoseconds and Go's \<^verbatim>\<open>int\<close> a signed
  machine integer. \<^verbatim>\<open>Validate\<close> only compares them with constants, so both are
  modelled by \<^typ>\<open>int\<close>.
\<close>

type_synonym Duration = int

definition Nanosecond :: Duration where
  "Nanosecond = 1"

definition minTimePeriod :: Duration where
  "minTimePeriod = Nanosecond"

record PoolSettings =
  Resource :: string
  Size :: int

record Settings =
  ActionTimeout :: Duration
  ReconciliationOperationTimeout :: Duration
  CleanupInterval :: Duration
  Lifespan :: Duration
  ReschedulingInterval :: Duration
  PollingInterval :: Duration
  DefaultPoolSize :: int
  Pools :: "PoolSettings list"

text \<open>The errors built with \<^verbatim>\<open>fmt.Errorf\<close>; each constructor stands for one message.\<close>

datatype settings_error =
    ActionTimeoutTooSmall
  | CleanupIntervalTooSmall
  | ReconciliationOperationTimeoutTooSmall
  | ReschedulingIntervalTooSmall
  | PollingIntervalTooSmall
  | DefaultPoolSizeTooSmall
  | PoolSizeTooSmall string

text \<open>\<^verbatim>\<open>PoolSettings.Validate\<close>; \<open>None\<close> is the \<^verbatim>\<open>nil\<close> error.\<close>

definition PoolSettings_Validate :: "PoolSettings \<Rightarrow> settings_error option" where
  "PoolSettings_Validate ps =
     (if Size ps \<le> 0 then Some (PoolSizeTooSmall (Resource ps)) else None)"

text \<open>The \<^verbatim>\<open>for _, pool := range s.Pools\<close> loop: the first failing pool ends it.\<close>

fun validate_pools :: "PoolSettings list \<Rightarrow> settings_error option" where
  "validate_pools [] = None"
| "validate_pools (pool # pools) =
     (case PoolSettings_Validate pool of
        Some err \<Rightarrow> Some err
      | None \<Rightarrow> validate_pools pools)"

text \<open>\<^verbatim>\<open>Settings.Validate\<close>, check by check in the order of the source.\<close>

definition Settings_Validate :: "Settings \<Rightarrow> settings_error option" where
  "Settings_Validate s =
     (if ActionTimeout s \<le> minTimePeriod then Some ActionTimeoutTooSmall
      else if CleanupInterval s \<le> minTimePeriod then Some CleanupIntervalTooSmall
      else if ReconciliationOperationTimeout s \<le> minTimePeriod
        then Some ReconciliationOperationTimeoutTooSmall
      else if ReschedulingInterval s \<le> minTimePeriod then Some ReschedulingIntervalTooSmall
      else if PollingInterval s \<le> minTimePeriod then Some PollingIntervalTooSmall
      else if DefaultPoolSize s \<le> 0 then Some DefaultPoolSizeTooSmall
      else validate_pools (Pools s))"

text \<open>\<^verbatim>\<open>DefaultSettings\<close>, with the durations written in nanoseconds.\<close>

definition Second :: Duration where
  "Second = 1000000000"

definition Hour :: Duration where
  "Hour = 3600 * Second"

definition defaultActionTimeout :: Duration where
  "defaultActionTimeout = 12 * Hour"

definition defaultOperationLifespan :: Duration where
  "defaultOperationLifespan = 7 * 24 * Hour"

definition defaultCleanupInterval :: Duration where
  "defaultCleanupInterval = 24 * Hour"

definition DefaultSettings :: Settings where
  "DefaultSettings =
     \<lparr> ActionTimeout = defaultActionTimeout,
       ReconciliationOperationTimeout = defaultOperationLifespan,
       CleanupInterval = defaultCleanupInterval,
       Lifespan = defaultOperationLifespan,
       ReschedulingInterval = 1 * Second,
       PollingInterval = 1 * Second,
       DefaultPoolSize = 20,
       Pools = [] \<rparr>"

text \<open>What the specification asks of a valid configuration, in its own words: every
  duration above zero nanoseconds, and every pool size above zero.\<close>

definition spec_settings_valid :: "Settings \<Rightarrow> bool" where
  "spec_settings_valid s \<longleftrightarrow>
     0 < ActionTimeout s \<and> 0 < ReconciliationOperationTimeout s \<and> 0 < CleanupInterval s \<and>
     0 < Lifespan s \<and> 0 < ReschedulingInterval s \<and> 0 < PollingInterval s \<and>
     0 < DefaultPoolSize s \<and> list_all (\<lambda>p. 0 < Size p) (Pools s)"

section \<open>Object types (pkg/types)\<close>

text \<open>
  The declarations of \<^verbatim>\<open>pkg/types\<close> are not part of the sources at hand. The records
  below carry the fields the code under verification and its tests read and write
  (\<^verbatim>\<open>platform.ID\<close>, \<^verbatim>\<open>visibility.Labels\<close>, \<^verbatim>\<open>broker.Services\<close>, \<^verbatim>\<open>broker.Catalog\<close>,
  \<^verbatim>\<open>serviceInstance.ServicePlanID\<close>, ...); the other fields of brokers, offerings, plans
  and instances follow the data model of the specification. The names of fields that
  several Go types share carry the name of their type here. A Go string is a
  \<^typ>\<open>string\<close>, a pointer that may be \<^verbatim>\<open>nil\<close> an \<^typ>\<open>'a option\<close>, a
  \<^verbatim>\<open>time.Time\<close> an abstract instant, and \<^verbatim>\<open>types.Labels\<close> (a map from keys to
  value lists, \<^verbatim>\<open>nil\<close> when absent) an association list whose length is \<^verbatim>\<open>len\<close>.
\<close>

type_synonym Time = int

type_synonym Labels = "(string \<times> string list) list"

record Base =
  ID :: string
  CreatedAt :: Time
  UpdatedAt :: Time
  Labels :: Labels
  PagingSequence :: int
  Ready :: bool

record Visibility = Base +
  PlatformID :: string
  ServicePlanID :: string

record Basic =
  Username :: string
  Password :: string

record Credentials =
  Basic :: "Basic option"
  Checksum :: "8 word list"

record types_Platform = Base +
  Type :: string
  Name :: string
  Description :: string
  Credentials :: "Credentials option"
  Active :: bool
  LastActive :: Time

record ServicePlan = Base +
  plan_CatalogID :: string
  plan_CatalogName :: string
  ServiceOfferingID :: string
  Free :: bool

record ServiceOffering = Base +
  offering_CatalogID :: string
  offering_CatalogName :: string
  BrokerID :: string
  Plans :: "ServicePlan list"

record ServiceBroker = Base +
  broker_Name :: string
  broker_Description :: string
  BrokerURL :: string
  broker_Credentials :: "Credentials option"
  Catalog :: string
  Services :: "ServiceOffering list"

record ServiceInstance = Base +
  instance_Name :: string
  instance_ServicePlanID :: string
  instance_PlatformID :: string

text \<open>\<^verbatim>\<open>types.Object\<close> is an interface; the type assertions of the code choose among
  its implementations.\<close>

datatype Object =
    PlatformObject types_Platform
  | VisibilityObject Visibility
  | ServiceBrokerObject ServiceBroker

section \<open>Platform storage entity (storage/postgres)\<close>

text \<open>\<^verbatim>\<open>sql.NullString\<close>.\<close>

record NullString =
  String :: string
  Valid :: bool

text \<open>The entity \<^verbatim>\<open>postgres.Platform\<close> with its embedded \<^verbatim>\<open>BaseEntity\<close>. Its fields
  have the names of \<^verbatim>\<open>types.Platform\<close>; here they carry the prefix \<open>ent\<close>. A
  \<^verbatim>\<open>[]byte\<close> is a list of bytes, \<^verbatim>\<open>nil\<close> being the empty list.\<close>

record BaseEntity =
  ent_ID :: string
  ent_CreatedAt :: Time
  ent_UpdatedAt :: Time
  ent_PagingSequence :: int
  ent_Ready :: bool

record postgres_Platform = BaseEntity +
  ent_Type :: string
  ent_Name :: string
  ent_Description :: NullString
  ent_Username :: string
  ent_Password :: string
  ent_Checksum :: "8 word list"
  ent_Active :: bool
  ent_LastActive :: Time

text \<open>
  \<^verbatim>\<open>Platform.FromObject\<close>. The result \<^verbatim>\<open>(nil, false)\<close> of a failed type assertion is
  \<open>None\<close>. The helper \<^verbatim>\<open>toNullString\<close> is declared elsewhere in the package and is
  a parameter here. The three assignments after the composite literal follow in the
  order of the source; fields the literal leaves out have Go's zero values.
\<close>

definition Platform_FromObject ::
  "(string \<Rightarrow> NullString) \<Rightarrow> Object \<Rightarrow> postgres_Platform option" where
  "Platform_FromObject toNullString object =
     (case object of
        PlatformObject platform \<Rightarrow>
          let result0 =
                \<lparr> ent_ID = ID platform,
                  ent_CreatedAt = CreatedAt platform,
                  ent_UpdatedAt = UpdatedAt platform,
                  ent_PagingSequence = PagingSequence platform,
                  ent_Ready = Ready platform,
                  ent_Type = Type platform,
                  ent_Name = Name platform,
                  ent_Description = toNullString (Description platform),
                  ent_Username = [],
                  ent_Password = [],
                  ent_Checksum = [],
                  ent_Active = Active platform,
                  ent_LastActive = LastActive platform \<rparr>;
              result1 =
                (if Description platform \<noteq> []
                 then result0\<lparr>ent_Description := (ent_Description result0)\<lparr>Valid := True\<rparr>\<rparr>
                 else result0);
              result2 =
                (case Credentials platform of
                   None \<Rightarrow> result1
                 | Some credentials \<Rightarrow>
                     (case Basic credentials of
                        None \<Rightarrow> result1
                      | Some basic \<Rightarrow>
                          result1\<lparr>ent_Username := Username basic,
                                  ent_Password := Password basic,
                                  ent_Checksum := Checksum credentials\<rparr>))
          in Some result2
      | _ \<Rightarrow> None)"

text \<open>\<^verbatim>\<open>copy(checksum[:], p.Checksum)\<close> into a zeroed \<^verbatim>\<open>[32]byte\<close>: as many bytes
  as both sides hold are copied, the rest stays zero.\<close>

definition copy_checksum :: "8 word list \<Rightarrow> 8 word list" where
  "copy_checksum src = take 32 src @ replicate (32 - length src) 0"

text \<open>\<^verbatim>\<open>Platform.ToObject\<close>; \<^verbatim>\<open>Labels\<close> is not set and stays \<^verbatim>\<open>nil\<close>.\<close>

definition Platform_ToObject :: "postgres_Platform \<Rightarrow> types_Platform" where
  "Platform_ToObject p =
     \<lparr> ID = ent_ID p,
       CreatedAt = ent_CreatedAt p,
       UpdatedAt = ent_UpdatedAt p,
       Labels = [],
       PagingSequence = ent_PagingSequence p,
       Ready = ent_Ready p,
       Type = ent_Type p,
       Name = ent_Name p,
       Description = String (ent_Description p),
       Credentials =
         Some \<lparr> Basic = Some \<lparr> Username = ent_Username p, Password = ent_Password p \<rparr>,
                Checksum = copy_checksum (ent_Checksum p) \<rparr>,
       Active = ent_Active p,
       LastActive = ent_LastActive p \<rparr>"

section \<open>The world of the interceptor\<close>

text \<open>
  Modelled from the spec: the transactional Repository (storage.Repository, component
  C1 of the specification), whose implementation is not among the sources. It holds the
  rows of the visibility and platform tables in storage order; \<^verbatim>\<open>List\<close> answers the
  rows that satisfy the criterion, \<^verbatim>\<open>Delete\<close> removes them, and \<^verbatim>\<open>Create\<close> inserts a
  row, assigns it the next paging sequence and refuses a second row with an identifier
  already present (the unique violation \<^verbatim>\<open>ConflictError\<close>).

  Beside the tables, the world holds what the code reads from its environment: the
  identifiers \<^verbatim>\<open>uuid.NewV4\<close> is going to return, one per call (none left: the
  generator fails), and the system clock: \<open>clock w n\<close> is the instant that call number
  \<open>n\<close> of \<^verbatim>\<open>time.Now\<close> returns, and \<open>clock_reads w\<close> counts the calls made so far, so
  that every call reads an instant of its own.
\<close>

record World =
  visibilities :: "Visibility list"
  platforms :: "types_Platform list"
  next_paging_sequence :: int
  uuids :: "string list"
  clock :: "nat \<Rightarrow> Time"
  clock_reads :: nat

datatype error =
    ConflictError
  | CouldNotGenerateGUID
  | ProcessorError string

text \<open>Modelled from the spec: \<^verbatim>\<open>List\<close> of the Repository for the visibilities with a given
  \<^verbatim>\<open>service_plan_id\<close>.\<close>

definition List_visibilities_by_service_plan_id ::
  "World \<Rightarrow> string \<Rightarrow> error + Visibility list" where
  "List_visibilities_by_service_plan_id w planID =
     Inr (filter (\<lambda>v. ServicePlanID v = planID) (visibilities w))"

text \<open>Modelled from the spec: \<^verbatim>\<open>List\<close> of the Repository for the platforms whose \<^verbatim>\<open>type\<close>
  is in a given list.\<close>

definition List_platforms_by_type_in ::
  "World \<Rightarrow> string list \<Rightarrow> error + types_Platform list" where
  "List_platforms_by_type_in w platformTypes =
     Inr (filter (\<lambda>p. Type p \<in> set platformTypes) (platforms w))"

text \<open>Modelled from the spec: \<^verbatim>\<open>Delete\<close> of the Repository for the visibilities with a given
  \<^verbatim>\<open>id\<close>.\<close>

definition Delete_visibility_by_id :: "World \<Rightarrow> string \<Rightarrow> error + World" where
  "Delete_visibility_by_id w visibilityID =
     Inr (w\<lparr>visibilities := filter (\<lambda>v. ID v \<noteq> visibilityID) (visibilities w)\<rparr>)"

text \<open>Modelled from the spec: \<^verbatim>\<open>Create\<close> of the Repository for a visibility.\<close>

definition Create_visibility :: "World \<Rightarrow> Visibility \<Rightarrow> error + World" where
  "Create_visibility w visibility =
     (if ID visibility \<in> set (map ID (visibilities w)) then Inl ConflictError
      else Inr (w\<lparr>visibilities :=
                     visibilities w @ [visibility\<lparr>PagingSequence := next_paging_sequence w\<rparr>],
                  next_paging_sequence := next_paging_sequence w + 1\<rparr>))"

section \<open>Public-plan visibility reconciler (storage/interceptors)\<close>

text \<open>\<^verbatim>\<open>publicPlanProcessor\<close> and the \<^verbatim>\<open>SupportedPlatforms\<close> callback of the providers.\<close>

type_synonym publicPlanProcessor =
  "ServiceBroker \<Rightarrow> ServiceOffering \<Rightarrow> ServicePlan \<Rightarrow> error + bool"

type_synonym supportedPlatformsFunc = "ServicePlan \<Rightarrow> string list"

text \<open>\<^verbatim>\<open>persistVisibility\<close>: a fresh identifier, then the current time, read once for
  both timestamps, and no labels.\<close>

definition persistVisibility :: "World \<Rightarrow> string \<Rightarrow> string \<Rightarrow> string \<Rightarrow> error + World" where
  "persistVisibility w platformID planID brokerID =
     (case uuids w of
        [] \<Rightarrow> Inl CouldNotGenerateGUID
      | UUID # later \<Rightarrow>
          let currentTime = clock w (clock_reads w);
              visibility =
                \<lparr> ID = UUID,
                  CreatedAt = currentTime,
                  UpdatedAt = currentTime,
                  Labels = [],
                  PagingSequence = 0,
                  Ready = False,
                  PlatformID = platformID,
                  ServicePlanID = planID \<rparr>
          in Create_visibility (w\<lparr>uuids := later, clock_reads := clock_reads w + 1\<rparr>)
               visibility)"

text \<open>\<^verbatim>\<open>platformsAnyMatchesVisibility\<close>: the index of the first platform whose id is
  the visibility's platform id, or \<^verbatim>\<open>(-1, false)\<close>. The first function is the
  \<^verbatim>\<open>range\<close> loop from index \<open>i\<close> on.\<close>

fun platformsAnyMatchesVisibility_from ::
  "int \<Rightarrow> types_Platform list \<Rightarrow> Visibility \<Rightarrow> int \<times> bool" where
  "platformsAnyMatchesVisibility_from i [] visibility = (- 1, False)"
| "platformsAnyMatchesVisibility_from i (platform # rest) visibility =
     (if PlatformID visibility = ID platform then (i, True)
      else platformsAnyMatchesVisibility_from (i + 1) rest visibility)"

definition platformsAnyMatchesVisibility ::
  "types_Platform list \<Rightarrow> Visibility \<Rightarrow> int \<times> bool" where
  "platformsAnyMatchesVisibility platforms' visibility =
     platformsAnyMatchesVisibility_from 0 platforms' visibility"

text \<open>The loop of \<^verbatim>\<open>resyncPublicPlanVisibilities\<close> over the listed visibilities; it
  carries \<^verbatim>\<open>publicVisibilityExists\<close> and the world.\<close>

fun resyncPublicPlanVisibilities_loop ::
  "bool \<Rightarrow> Visibility list \<Rightarrow> bool \<Rightarrow> World \<Rightarrow> error + bool \<times> World" where
  "resyncPublicPlanVisibilities_loop isPlanPublic [] publicVisibilityExists w =
     Inr (publicVisibilityExists, w)"
| "resyncPublicPlanVisibilities_loop isPlanPublic (visibility # rest) publicVisibilityExists w =
     (let (publicVisibilityExists', shouldDeleteVisibility) =
            (if isPlanPublic then
               (if PlatformID visibility = [] then (True, False)
                else (publicVisibilityExists, True))
             else
               (if PlatformID visibility \<noteq> [] then (publicVisibilityExists, False)
                else (publicVisibilityExists, True)))
      in if shouldDeleteVisibility then
           (case Delete_visibility_by_id w (ID visibility) of
              Inl err \<Rightarrow> Inl err
            | Inr w' \<Rightarrow>
                resyncPublicPlanVisibilities_loop isPlanPublic rest publicVisibilityExists' w')
         else resyncPublicPlanVisibilities_loop isPlanPublic rest publicVisibilityExists' w)"

definition resyncPublicPlanVisibilities ::
  "World \<Rightarrow> Visibility list \<Rightarrow> bool \<Rightarrow> string \<Rightarrow> string \<Rightarrow> error + World" where
  "resyncPublicPlanVisibilities w planVisibilities isPlanPublic planID brokerID =
     (case resyncPublicPlanVisibilities_loop isPlanPublic planVisibilities False w of
        Inl err \<Rightarrow> Inl err
      | Inr (publicVisibilityExists, w') \<Rightarrow>
          if isPlanPublic \<and> \<not> publicVisibilityExists
          then persistVisibility w' [] planID brokerID
          else Inr w')"

text \<open>\<^verbatim>\<open>append(supportedPlatforms[:idx], supportedPlatforms[idx+1:]...)\<close>.\<close>

definition remove_at :: "int \<Rightarrow> 'a list \<Rightarrow> 'a list" where
  "remove_at idx xs = take (nat idx) xs @ drop (nat (idx + 1)) xs"

text \<open>The first loop of \<^verbatim>\<open>resyncPlanVisibilitiesWithSupportedPlatforms\<close>; it carries
  the platforms still without a visibility and the world.\<close>

fun resyncPlanVisibilitiesWithSupportedPlatforms_loop ::
  "bool \<Rightarrow> Visibility list \<Rightarrow> types_Platform list \<Rightarrow> World \<Rightarrow>
     error + types_Platform list \<times> World" where
  "resyncPlanVisibilitiesWithSupportedPlatforms_loop isPlanPublic [] supportedPlatforms w =
     Inr (supportedPlatforms, w)"
| "resyncPlanVisibilitiesWithSupportedPlatforms_loop isPlanPublic (visibility # rest)
       supportedPlatforms w =
     (let (idx, matches) = platformsAnyMatchesVisibility supportedPlatforms visibility;
          (supportedPlatforms', shouldDeleteVisibility) =
            (if isPlanPublic then
               (if matches \<and> length (Labels visibility) = 0
                then (remove_at idx supportedPlatforms, False)
                else (supportedPlatforms, True))
             else
               (if matches \<and> length (Labels visibility) \<noteq> 0
                then (supportedPlatforms, False)
                else (supportedPlatforms, True)))
      in if shouldDeleteVisibility then
           (case Delete_visibility_by_id w (ID visibility) of
              Inl err \<Rightarrow> Inl err
            | Inr w' \<Rightarrow>
                resyncPlanVisibilitiesWithSupportedPlatforms_loop isPlanPublic rest
                  supportedPlatforms' w')
         else resyncPlanVisibilitiesWithSupportedPlatforms_loop isPlanPublic rest
                supportedPlatforms' w)"

text \<open>Its second loop: one visibility for each platform left.\<close>

fun persistVisibility_each ::
  "types_Platform list \<Rightarrow> string \<Rightarrow> string \<Rightarrow> World \<Rightarrow> error + World" where
  "persistVisibility_each [] planID brokerID w = Inr w"
| "persistVisibility_each (platform # rest) planID brokerID w =
     (case persistVisibility w (ID platform) planID brokerID of
        Inl err \<Rightarrow> Inl err
      | Inr w' \<Rightarrow> persistVisibility_each rest planID brokerID w')"

definition resyncPlanVisibilitiesWithSupportedPlatforms ::
  "World \<Rightarrow> Visibility list \<Rightarrow> bool \<Rightarrow> string \<Rightarrow> string \<Rightarrow> string list \<Rightarrow> error + World" where
  "resyncPlanVisibilitiesWithSupportedPlatforms w planVisibilities isPlanPublic planID brokerID
       supportedPlatformTypes =
     (case List_platforms_by_type_in w supportedPlatformTypes of
        Inl err \<Rightarrow> Inl err
      | Inr platformList \<Rightarrow>
          (case resyncPlanVisibilitiesWithSupportedPlatforms_loop isPlanPublic planVisibilities
                  platformList w of
             Inl err \<Rightarrow> Inl err
           | Inr (supportedPlatforms, w') \<Rightarrow>
               if isPlanPublic
               then persistVisibility_each supportedPlatforms planID brokerID w'
               else Inr w'))"

text \<open>\<^verbatim>\<open>resync\<close>: the body of the inner loop for one plan, the loop over the plans of
  an offering, and the loop over the offerings of the broker.\<close>

definition resync_plan ::
  "ServiceBroker \<Rightarrow> publicPlanProcessor \<Rightarrow> supportedPlatformsFunc \<Rightarrow>
     ServiceOffering \<Rightarrow> ServicePlan \<Rightarrow> World \<Rightarrow> error + World" where
  "resync_plan broker isCatalogPlanPublicFunc supportedPlatforms serviceOffering servicePlan w =
     (let planID = ID servicePlan in
      case isCatalogPlanPublicFunc broker serviceOffering servicePlan of
        Inl err \<Rightarrow> Inl err
      | Inr isPlanPublic \<Rightarrow>
          (case List_visibilities_by_service_plan_id w planID of
             Inl err \<Rightarrow> Inl err
           | Inr planVisibilities \<Rightarrow>
               let supportedPlatformTypes = supportedPlatforms servicePlan in
               if length supportedPlatformTypes = 0
               then resyncPublicPlanVisibilities w planVisibilities isPlanPublic planID
                      (ID broker)
               else resyncPlanVisibilitiesWithSupportedPlatforms w planVisibilities isPlanPublic
                      planID (ID broker) supportedPlatformTypes))"

fun resync_plans ::
  "ServiceBroker \<Rightarrow> publicPlanProcessor \<Rightarrow> supportedPlatformsFunc \<Rightarrow>
     ServiceOffering \<Rightarrow> ServicePlan list \<Rightarrow> World \<Rightarrow> error + World" where
  "resync_plans broker isCatalogPlanPublicFunc supportedPlatforms serviceOffering [] w = Inr w"
| "resync_plans broker isCatalogPlanPublicFunc supportedPlatforms serviceOffering
       (servicePlan # rest) w =
     (case resync_plan broker isCatalogPlanPublicFunc supportedPlatforms serviceOffering
             servicePlan w of
        Inl err \<Rightarrow> Inl err
      | Inr w' \<Rightarrow>
          resync_plans broker isCatalogPlanPublicFunc supportedPlatforms serviceOffering rest w')"

fun resync_services ::
  "ServiceBroker \<Rightarrow> publicPlanProcessor \<Rightarrow> supportedPlatformsFunc \<Rightarrow>
     ServiceOffering list \<Rightarrow> World \<Rightarrow> error + World" where
  "resync_services broker isCatalogPlanPublicFunc supportedPlatforms [] w = Inr w"
| "resync_services broker isCatalogPlanPublicFunc supportedPlatforms (serviceOffering # rest) w =
     (case resync_plans broker isCatalogPlanPublicFunc supportedPlatforms serviceOffering
             (Plans serviceOffering) w of
        Inl err \<Rightarrow> Inl err
      | Inr w' \<Rightarrow> resync_services broker isCatalogPlanPublicFunc supportedPlatforms rest w')"

definition resync ::
  "ServiceBroker \<Rightarrow> World \<Rightarrow> publicPlanProcessor \<Rightarrow> supportedPlatformsFunc \<Rightarrow> error + World" where
  "resync broker w isCatalogPlanPublicFunc supportedPlatforms =
     resync_services broker isCatalogPlanPublicFunc supportedPlatforms (Services broker) w"

section \<open>Broker API: catalog refresh and deletion\<close>

text \<open>
  The broker controller, the catalog fetcher, the catalog differ and the storage behind
  them are not among the sources; only their API tests are. This section models them
  from the specification (components C3, C4 and C6, and the foreign-key refusal of C1):
  validate the request, fetch the catalog, parse and validate it, write the broker row,
  diff the catalog against the stored offerings and plans, persist, store the raw
  catalog, run the visibility reconciler, commit. A request that ends in an error leaves
  the tables as they were (the transaction is rolled back); the requests the broker has
  received stay received.

  The specification names the write of the broker row before the fetch. The API tests
  have the fetch first, and the model follows them: a request with an unsupported
  content type or an invalid body leaves the broker without a catalog request (tests
  "when content type is not JSON", "when request body is not a valid JSON"), while a
  request refused with 409 for a name already taken has been preceded by its catalog
  request (test "when broker with name already exists", which counts two catalog
  requests after two POSTs; PATCH is the same flow with the row updated).
\<close>

text \<open>Modelled from the spec: what a registered broker answers at \<^verbatim>\<open>/v2/catalog\<close>. It is
  unreachable, or answers an error status, or a body: the raw bytes with the offerings
  parsed from them, \<open>None\<close> for malformed JSON.\<close>

datatype CatalogReply =
    Unreachable
  | ErrorStatus nat
  | CatalogBody string "ServiceOffering list option"

text \<open>Modelled from the spec: the error kinds of the REST surface and their status codes.\<close>

datatype api_error =
    UnsupportedMediaType
  | BadRequest
  | NotFound
  | Conflict
  | ExistingReferenceEntity
  | BadGateway
  | InternalServerError

fun status_code :: "api_error \<Rightarrow> nat" where
  "status_code UnsupportedMediaType = 415"
| "status_code BadRequest = 400"
| "status_code NotFound = 404"
| "status_code Conflict = 409"
| "status_code ExistingReferenceEntity = 409"
| "status_code BadGateway = 502"
| "status_code InternalServerError = 500"

text \<open>Modelled from the spec: a PATCH request as the controller sees it. The body is
  \<open>None\<close> when it is not valid JSON or fails validation; the updatable fields are name,
  description, broker_url and credentials, each possibly absent.\<close>

record PatchBody =
  patch_name :: "string option"
  patch_description :: "string option"
  patch_broker_url :: "string option"
  patch_credentials :: "Credentials option"

record PatchRequest =
  content_type_json :: bool
  json_body :: "PatchBody option"

text \<open>Modelled from the spec: the state a request runs in. The broker rows with their
  offerings and plans, the service instances and the world of the reconciler are the
  tables; the brokers reachable by URL and the catalog requests they have received so
  far (by URL, oldest first) are the environment.\<close>

record ServiceManager =
  brokers :: "ServiceBroker list"
  instances :: "ServiceInstance list"
  storage :: World
  broker_servers :: "(string \<times> CatalogReply) list"
  CatalogEndpointRequests :: "string list"

text \<open>Modelled from the spec: the catalog fetcher's GET; no server at the URL means
  unreachable.\<close>

definition catalog_reply :: "ServiceManager \<Rightarrow> string \<Rightarrow> CatalogReply" where
  "catalog_reply sm url =
     (case map_of (broker_servers sm) url of None \<Rightarrow> Unreachable | Some reply \<Rightarrow> reply)"

text \<open>Modelled from the spec: validation of the differ, catalog id and catalog name
  present and non-empty for every plan and offering.\<close>

definition plan_valid :: "ServicePlan \<Rightarrow> bool" where
  "plan_valid p \<longleftrightarrow> plan_CatalogID p \<noteq> [] \<and> plan_CatalogName p \<noteq> []"

definition offering_valid :: "ServiceOffering \<Rightarrow> bool" where
  "offering_valid s \<longleftrightarrow>
     offering_CatalogID s \<noteq> [] \<and> offering_CatalogName s \<noteq> [] \<and> list_all plan_valid (Plans s)"

text \<open>Modelled from the spec: the conflict of the differ, a catalog id changed under an
  unchanged catalog name. Offerings are compared within the broker, plans within the
  offering matched by catalog id.\<close>

definition plan_id_changed :: "ServicePlan list \<Rightarrow> ServicePlan list \<Rightarrow> bool" where
  "plan_id_changed stored fetched \<longleftrightarrow>
     list_ex (\<lambda>p. list_ex (\<lambda>q. plan_CatalogName q = plan_CatalogName p \<and>
                              plan_CatalogID q \<noteq> plan_CatalogID p) fetched) stored"

definition offering_id_changed :: "ServiceOffering list \<Rightarrow> ServiceOffering list \<Rightarrow> bool" where
  "offering_id_changed stored fetched \<longleftrightarrow>
     list_ex (\<lambda>s. list_ex (\<lambda>n. offering_CatalogName n = offering_CatalogName s \<and>
                              offering_CatalogID n \<noteq> offering_CatalogID s) fetched) stored"

definition catalog_conflict :: "ServiceOffering list \<Rightarrow> ServiceOffering list \<Rightarrow> bool" where
  "catalog_conflict stored fetched \<longleftrightarrow>
     offering_id_changed stored fetched \<or>
     list_ex (\<lambda>s. list_ex (\<lambda>n. offering_CatalogID n = offering_CatalogID s \<and>
                              plan_id_changed (Plans s) (Plans n)) fetched) stored"

text \<open>Modelled from the spec: the plans the differ puts in its delete set, stored plans
  whose offering and catalog id the fetched catalog no longer has; and the foreign-key
  check of the Repository, a plan referenced by a service instance.\<close>

definition removed_plans :: "ServiceOffering list \<Rightarrow> ServiceOffering list \<Rightarrow> ServicePlan list" where
  "removed_plans stored fetched =
     concat (map (\<lambda>s. filter (\<lambda>p. \<not> list_ex (\<lambda>n. offering_CatalogID n = offering_CatalogID s \<and>
                       list_ex (\<lambda>q. plan_CatalogID q = plan_CatalogID p) (Plans n)) fetched)
                     (Plans s)) stored)"

definition referenced :: "ServiceInstance list \<Rightarrow> ServicePlan \<Rightarrow> bool" where
  "referenced is p \<longleftrightarrow> list_ex (\<lambda>i. instance_ServicePlanID i = ID p) is"

text \<open>Modelled from the spec: the offerings and plans after the delta is applied. A
  fetched entry matched by catalog id keeps the identifier of the stored one (an update,
  also when renamed); an unmatched one is new.\<close>

definition merge_plan :: "ServicePlan list \<Rightarrow> ServicePlan \<Rightarrow> ServicePlan" where
  "merge_plan stored q =
     (case find (\<lambda>p. plan_CatalogID p = plan_CatalogID q) stored of
        None \<Rightarrow> q
      | Some p \<Rightarrow> q\<lparr>ID := ID p\<rparr>)"

definition merge_offering :: "ServiceOffering list \<Rightarrow> ServiceOffering \<Rightarrow> ServiceOffering" where
  "merge_offering stored n =
     (case find (\<lambda>s. offering_CatalogID s = offering_CatalogID n) stored of
        None \<Rightarrow> n
      | Some s \<Rightarrow> n\<lparr>ID := ID s, Plans := map (merge_plan (Plans s)) (Plans n)\<rparr>)"

text \<open>Modelled from the spec: the updatable fields of a PATCH; id, created_at and
  services in a body are ignored.\<close>

definition apply_patch :: "ServiceBroker \<Rightarrow> PatchBody \<Rightarrow> ServiceBroker" where
  "apply_patch old body =
     old\<lparr>broker_Name := (case patch_name body of None \<Rightarrow> broker_Name old | Some n \<Rightarrow> n),
         broker_Description :=
           (case patch_description body of None \<Rightarrow> broker_Description old | Some d \<Rightarrow> d),
         BrokerURL := (case patch_broker_url body of None \<Rightarrow> BrokerURL old | Some u \<Rightarrow> u),
         broker_Credentials :=
           (case patch_credentials body of None \<Rightarrow> broker_Credentials old | Some c \<Rightarrow> Some c)\<rparr>"

text \<open>Modelled from the spec: the unique violation on the broker name.\<close>

definition name_taken :: "ServiceManager \<Rightarrow> ServiceBroker \<Rightarrow> bool" where
  "name_taken sm b \<longleftrightarrow> list_ex (\<lambda>x. ID x \<noteq> ID b \<and> broker_Name x = broker_Name b) (brokers sm)"

text \<open>Modelled from the spec: PATCH of a broker (broker reconciliation driver). The result
  is the error or the broker as written, with the state after the request. The catalog
  is fetched as soon as the request is validated and the broker found; the unique
  violation on the name arises at the write of the broker row, after the fetch.\<close>

definition patch_broker ::
  "publicPlanProcessor \<Rightarrow> supportedPlatformsFunc \<Rightarrow> ServiceManager \<Rightarrow> string \<Rightarrow> PatchRequest \<Rightarrow>
     (api_error + ServiceBroker) \<times> ServiceManager" where
  "patch_broker isCatalogPlanPublicFunc supportedPlatforms sm brokerID request =
     (if \<not> content_type_json request then (Inl UnsupportedMediaType, sm)
      else case json_body request of
        None \<Rightarrow> (Inl BadRequest, sm)
      | Some body \<Rightarrow>
          (case find (\<lambda>b. ID b = brokerID) (brokers sm) of
             None \<Rightarrow> (Inl NotFound, sm)
           | Some old \<Rightarrow>
               let updated = apply_patch old body;
                   sm1 = sm\<lparr>CatalogEndpointRequests :=
                               CatalogEndpointRequests sm @ [BrokerURL updated]\<rparr> in
               (case catalog_reply sm (BrokerURL updated) of
                  Unreachable \<Rightarrow> (Inl BadGateway, sm1)
                | ErrorStatus code \<Rightarrow> (Inl BadRequest, sm1)
                | CatalogBody raw None \<Rightarrow> (Inl BadRequest, sm1)
                | CatalogBody raw (Some fetched) \<Rightarrow>
                    if \<not> list_all offering_valid fetched then (Inl BadRequest, sm1)
                    else if name_taken sm updated then (Inl Conflict, sm1)
                    else if catalog_conflict (Services old) fetched then (Inl Conflict, sm1)
                    else if list_ex (referenced (instances sm))
                              (removed_plans (Services old) fetched)
                    then (Inl ExistingReferenceEntity, sm1)
                    else
                      let written = updated\<lparr>Catalog := raw,
                              Services := map (merge_offering (Services old)) fetched\<rparr> in
                      (case resync written (storage sm) isCatalogPlanPublicFunc
                              supportedPlatforms of
                         Inl err \<Rightarrow> (Inl InternalServerError, sm1)
                       | Inr w' \<Rightarrow>
                           (Inr written,
                            sm1\<lparr>brokers := map (\<lambda>b. if ID b = brokerID then written else b)
                                              (brokers sm),
                                storage := w'\<rparr>)))))"

text \<open>Modelled from the spec: DELETE of a broker, refused while an instance references
  one of its plans.\<close>

definition delete_broker ::
  "ServiceManager \<Rightarrow> string \<Rightarrow> (api_error + ServiceBroker) \<times> ServiceManager" where
  "delete_broker sm brokerID =
     (case find (\<lambda>b. ID b = brokerID) (brokers sm) of
        None \<Rightarrow> (Inl NotFound, sm)
      | Some b \<Rightarrow>
          if list_ex (referenced (instances sm)) (concat (map Plans (Services b)))
          then (Inl ExistingReferenceEntity, sm)
          else (Inr b, sm\<lparr>brokers := filter (\<lambda>x. ID x \<noteq> brokerID) (brokers sm)\<rparr>))"

section \<open>What the reconciler does to the visibility table\<close>

text \<open>The functions of this section are not functions of the code: they state, without
  the storage calls, what its loops decide, and the results relate the loops to them.\<close>

text \<open>The rows that \<^verbatim>\<open>List\<close> answers for a plan, and the platforms it answers for a
  list of platform types.\<close>

definition plan_rows :: "string \<Rightarrow> World \<Rightarrow> Visibility list" where
  "plan_rows planID w = filter (\<lambda>v. ServicePlanID v = planID) (visibilities w)"

definition supported_platforms_of :: "string list \<Rightarrow> World \<Rightarrow> types_Platform list" where
  "supported_platforms_of types w = filter (\<lambda>p. Type p \<in> set types) (platforms w)"

text \<open>The table after the rows with an identifier in \<open>D\<close> are deleted.\<close>

definition delete_ids :: "string set \<Rightarrow> World \<Rightarrow> World" where
  "delete_ids D w = w\<lparr>visibilities := filter (\<lambda>v. ID v \<notin> D) (visibilities w)\<rparr>"

text \<open>The row \<^verbatim>\<open>persistVisibility\<close> leaves in the table when it succeeds in world \<open>w\<close>.\<close>

definition stored_visibility :: "World \<Rightarrow> string \<Rightarrow> string \<Rightarrow> Visibility" where
  "stored_visibility w platformID planID =
     \<lparr> ID = hd (uuids w), CreatedAt = clock w (clock_reads w),
       UpdatedAt = clock w (clock_reads w), Labels = [],
       PagingSequence = next_paging_sequence w, Ready = False,
       PlatformID = platformID, ServicePlanID = planID \<rparr>"

text \<open>The next \<open>n\<close> identifiers of the generator exist, differ from each other and are
  not taken by a row of the table.\<close>

definition fresh_uuids :: "nat \<Rightarrow> World \<Rightarrow> bool" where
  "fresh_uuids n w \<longleftrightarrow>
     n \<le> length (uuids w) \<and> distinct (take n (uuids w)) \<and>
     set (take n (uuids w)) \<inter> ID ` set (visibilities w) = {}"

text \<open>All platforms supported: a row stays when its platform id agrees with the plan being
  public (empty) or not (non-empty). Labels play no part.\<close>

definition caseA_keeps :: "bool \<Rightarrow> Visibility \<Rightarrow> bool" where
  "caseA_keeps isPlanPublic v \<longleftrightarrow> (if isPlanPublic then PlatformID v = [] else PlatformID v \<noteq> [])"

text \<open>Some platforms supported, plan not public: a row stays when it names a supported
  platform and has labels.\<close>

definition caseB_private_keeps :: "types_Platform list \<Rightarrow> Visibility \<Rightarrow> bool" where
  "caseB_private_keeps ps v \<longleftrightarrow> PlatformID v \<in> ID ` set ps \<and> Labels v \<noteq> []"

text \<open>Some platforms supported, plan public. The first platform with a given id leaves
  the list of platforms still to be covered; the scan of the rows in listing order
  yields the platforms left uncovered, the rows kept and the rows deleted.\<close>

fun remove_platform :: "string \<Rightarrow> types_Platform list \<Rightarrow> types_Platform list" where
  "remove_platform pid [] = []"
| "remove_platform pid (p # ps) = (if pid = ID p then ps else p # remove_platform pid ps)"

fun uncovered :: "types_Platform list \<Rightarrow> Visibility list \<Rightarrow> types_Platform list" where
  "uncovered ps [] = ps"
| "uncovered ps (v # vs) =
     (if PlatformID v \<in> ID ` set ps \<and> Labels v = []
      then uncovered (remove_platform (PlatformID v) ps) vs
      else uncovered ps vs)"

fun kept_public :: "types_Platform list \<Rightarrow> Visibility list \<Rightarrow> Visibility list" where
  "kept_public ps [] = []"
| "kept_public ps (v # vs) =
     (if PlatformID v \<in> ID ` set ps \<and> Labels v = []
      then v # kept_public (remove_platform (PlatformID v) ps) vs
      else kept_public ps vs)"

fun deleted_public :: "types_Platform list \<Rightarrow> Visibility list \<Rightarrow> Visibility list" where
  "deleted_public ps [] = []"
| "deleted_public ps (v # vs) =
     (if PlatformID v \<in> ID ` set ps \<and> Labels v = []
      then deleted_public (remove_platform (PlatformID v) ps) vs
      else v # deleted_public ps vs)"

text \<open>The same without the scan, for platforms with distinct identifiers: a platform is
  covered when some unlabeled row of the plan names it, and a row stays when it names
  a supported platform and is the first unlabeled row of the listing for that platform.\<close>

definition covered_by :: "Visibility list \<Rightarrow> types_Platform \<Rightarrow> bool" where
  "covered_by vs p \<longleftrightarrow> (\<exists>v\<in>set vs. Labels v = [] \<and> PlatformID v = ID p)"

definition first_unlabeled :: "Visibility list \<Rightarrow> string \<Rightarrow> Visibility option" where
  "first_unlabeled vs platformID = find (\<lambda>u. Labels u = [] \<and> PlatformID u = platformID) vs"

definition caseB_public_keeps ::
  "types_Platform list \<Rightarrow> Visibility list \<Rightarrow> Visibility \<Rightarrow> bool" where
  "caseB_public_keeps ps vs v \<longleftrightarrow>
     PlatformID v \<in> ID ` set ps \<and> first_unlabeled vs (PlatformID v) = Some v"

text \<open>The rows of a plan are settled when the reconciler has nothing to delete and
  nothing to create for it.\<close>

definition settled :: "bool \<Rightarrow> string list \<Rightarrow> string \<Rightarrow> World \<Rightarrow> bool" where
  "settled pub types planID w \<longleftrightarrow>
     (if types = []
      then (\<forall>v\<in>set (plan_rows planID w). caseA_keeps pub v) \<and>
           (pub \<longrightarrow> (\<exists>v\<in>set (plan_rows planID w). PlatformID v = []))
      else if pub
      then deleted_public (supported_platforms_of types w) (plan_rows planID w) = [] \<and>
           uncovered (supported_platforms_of types w) (plan_rows planID w) = []
      else (\<forall>v\<in>set (plan_rows planID w).
              caseB_private_keeps (supported_platforms_of types w) v))"

definition plan_settled ::
  "ServiceBroker \<Rightarrow> publicPlanProcessor \<Rightarrow> supportedPlatformsFunc \<Rightarrow>
     ServiceOffering \<Rightarrow> ServicePlan \<Rightarrow> World \<Rightarrow> bool" where
  "plan_settled broker f sp off p w \<longleftrightarrow>
     (\<exists>pub. f broker off p = Inr pub \<and> settled pub (sp p) (ID p) w)"

section \<open>Predicates and concrete inputs of the results\<close>

text \<open>Every duration, \<^verbatim>\<open>Lifespan\<close> among them, above \<^verbatim>\<open>minTimePeriod\<close> and every
  pool size above zero.\<close>

definition settings_above_min :: "Settings \<Rightarrow> bool" where
  "settings_above_min s \<longleftrightarrow>
     minTimePeriod < ActionTimeout s \<and> minTimePeriod < ReconciliationOperationTimeout s \<and>
     minTimePeriod < CleanupInterval s \<and> minTimePeriod < Lifespan s \<and>
     minTimePeriod < ReschedulingInterval s \<and> minTimePeriod < PollingInterval s \<and>
     0 < DefaultPoolSize s \<and> list_all (\<lambda>p. 0 < Size p) (Pools s)"

text \<open>The same for the settings \<^verbatim>\<open>Validate\<close> examines.\<close>

definition checked_settings_above_min :: "Settings \<Rightarrow> bool" where
  "checked_settings_above_min s \<longleftrightarrow>
     minTimePeriod < ActionTimeout s \<and> minTimePeriod < ReconciliationOperationTimeout s \<and>
     minTimePeriod < CleanupInterval s \<and>
     minTimePeriod < ReschedulingInterval s \<and> minTimePeriod < PollingInterval s \<and>
     0 < DefaultPoolSize s \<and> list_all (\<lambda>p. 0 < Size p) (Pools s)"

text \<open>The default settings with an action timeout of one nanosecond.\<close>

definition one_nanosecond_settings :: Settings where
  "one_nanosecond_settings = DefaultSettings\<lparr>ActionTimeout := 1\<rparr>"

text \<open>A \<^verbatim>\<open>toNullString\<close> that keeps the string, and a platform with basic credentials.\<close>

definition example_toNullString :: "string \<Rightarrow> NullString" where
  "example_toNullString s = \<lparr> String = s, Valid = (s \<noteq> []) \<rparr>"

definition example_platform :: types_Platform where
  "example_platform =
     \<lparr> ID = ''platform-1'',
       CreatedAt = 10,
       UpdatedAt = 20,
       Labels = [],
       PagingSequence = 7,
       Ready = True,
       Type = ''kubernetes'',
       Name = ''k8s'',
       Description = ''a cluster'',
       Credentials =
         Some \<lparr> Basic = Some \<lparr> Username = ''admin'', Password = ''secret'' \<rparr>,
                Checksum = replicate 32 1 \<rparr>,
       Active = True,
       LastActive = 30 \<rparr>"

text \<open>An entity whose credential columns are empty.\<close>

definition example_entity :: postgres_Platform where
  "example_entity =
     \<lparr> ent_ID = ''platform-2'',
       ent_CreatedAt = 1,
       ent_UpdatedAt = 2,
       ent_PagingSequence = 3,
       ent_Ready = False,
       ent_Type = ''cloudfoundry'',
       ent_Name = ''cf'',
       ent_Description = \<lparr> String = [], Valid = False \<rparr>,
       ent_Username = [],
       ent_Password = [],
       ent_Checksum = [],
       ent_Active = False,
       ent_LastActive = 0 \<rparr>"

text \<open>Rows, platforms, worlds, a broker and callbacks for concrete runs of the
  reconciler. The primed worlds are the expected results.\<close>

definition visibility_row :: "string \<Rightarrow> string \<Rightarrow> string \<Rightarrow> Labels \<Rightarrow> Visibility" where
  "visibility_row visibilityID planID platformID labels =
     \<lparr> ID = visibilityID, CreatedAt = 0, UpdatedAt = 0, Labels = labels, PagingSequence = 0,
       Ready = True, PlatformID = platformID, ServicePlanID = planID \<rparr>"

definition platform_row :: "string \<Rightarrow> string \<Rightarrow> types_Platform" where
  "platform_row platformID platformType =
     \<lparr> ID = platformID, CreatedAt = 0, UpdatedAt = 0, Labels = [], PagingSequence = 0,
       Ready = True, Type = platformType, Name = platformID, Description = [],
       Credentials = None, Active = True, LastActive = 0 \<rparr>"

text \<open>A clock that starts at instant 50 and is one unit later at every reading.\<close>

definition example_clock :: "nat \<Rightarrow> Time" where
  "example_clock n = 50 + int n"

definition paid_row :: Visibility where
  "paid_row = visibility_row ''v1'' ''plan-A'' ''pl-1'' [(''org'', [''acme''])]"

definition world_A :: World where
  "world_A =
     \<lparr> visibilities = [paid_row, visibility_row ''v2'' ''plan-B'' [] []],
       platforms = [platform_row ''pl-1'' ''kubernetes''],
       next_paging_sequence = 3,
       uuids = [''u1''],
       clock = example_clock,
       clock_reads = 0 \<rparr>"

definition world_A' :: World where
  "world_A' =
     \<lparr> visibilities =
         [visibility_row ''v2'' ''plan-B'' [] [],
          \<lparr> ID = ''u1'', CreatedAt = 50, UpdatedAt = 50, Labels = [], PagingSequence = 3,
            Ready = False, PlatformID = [], ServicePlanID = ''plan-A'' \<rparr>],
       platforms = [platform_row ''pl-1'' ''kubernetes''],
       next_paging_sequence = 4,
       uuids = [],
       clock = example_clock,
       clock_reads = 1 \<rparr>"

definition wildcard_rows :: "Visibility list" where
  "wildcard_rows = [visibility_row ''w1'' ''plan-A'' [] [], visibility_row ''w2'' ''plan-A'' [] []]"

definition world_W :: World where
  "world_W =
     \<lparr> visibilities = wildcard_rows,
       platforms = [platform_row ''pl-1'' ''kubernetes''],
       next_paging_sequence = 3,
       uuids = [''u1''],
       clock = example_clock,
       clock_reads = 0 \<rparr>"

definition row_b1 :: Visibility where
  "row_b1 = visibility_row ''b1'' ''plan-B'' ''pl-1'' []"

definition row_b2 :: Visibility where
  "row_b2 = visibility_row ''b2'' ''plan-B'' ''pl-1'' []"

definition row_b3 :: Visibility where
  "row_b3 = visibility_row ''b3'' ''plan-B'' ''pl-2'' [(''org'', [''acme''])]"

definition row_b4 :: Visibility where
  "row_b4 = visibility_row ''b4'' ''plan-B'' ''pl-3'' []"

definition row_b5 :: Visibility where
  "row_b5 = visibility_row ''b5'' ''plan-C'' ''pl-1'' []"

definition example_platforms :: "types_Platform list" where
  "example_platforms =
     [platform_row ''pl-1'' ''kubernetes'', platform_row ''pl-2'' ''cloudfoundry'',
      platform_row ''pl-3'' ''other'']"

definition example_types :: "string list" where
  "example_types = [''kubernetes'', ''cloudfoundry'']"

definition world_B :: World where
  "world_B =
     \<lparr> visibilities = [row_b1, row_b2, row_b3, row_b4, row_b5],
       platforms = example_platforms,
       next_paging_sequence = 6,
       uuids = [''u1'', ''u2''],
       clock = example_clock,
       clock_reads = 0 \<rparr>"

definition world_B_public :: World where
  "world_B_public =
     \<lparr> visibilities =
         [row_b1, row_b5,
          \<lparr> ID = ''u1'', CreatedAt = 50, UpdatedAt = 50, Labels = [], PagingSequence = 6,
            Ready = False, PlatformID = ''pl-2'', ServicePlanID = ''plan-B'' \<rparr>],
       platforms = example_platforms,
       next_paging_sequence = 7,
       uuids = [''u2''],
       clock = example_clock,
       clock_reads = 1 \<rparr>"

definition world_B_private :: World where
  "world_B_private =
     \<lparr> visibilities = [row_b3, row_b5],
       platforms = example_platforms,
       next_paging_sequence = 6,
       uuids = [''u1'', ''u2''],
       clock = example_clock,
       clock_reads = 0 \<rparr>"

definition example_plan :: "string \<Rightarrow> ServicePlan" where
  "example_plan planID =
     \<lparr> ID = planID, CreatedAt = 0, UpdatedAt = 0, Labels = [], PagingSequence = 0,
       Ready = True, plan_CatalogID = planID, plan_CatalogName = planID,
       ServiceOfferingID = ''offering-1'', Free = True \<rparr>"

definition example_offering :: ServiceOffering where
  "example_offering =
     \<lparr> ID = ''offering-1'', CreatedAt = 0, UpdatedAt = 0, Labels = [], PagingSequence = 0,
       Ready = True, offering_CatalogID = ''offering-1'', offering_CatalogName = ''offering-1'',
       BrokerID = ''broker-1'', Plans = [example_plan ''plan-A'', example_plan ''plan-B''] \<rparr>"

definition example_broker :: ServiceBroker where
  "example_broker =
     \<lparr> ID = ''broker-1'', CreatedAt = 0, UpdatedAt = 0, Labels = [], PagingSequence = 0,
       Ready = True, broker_Name = ''broker-1'', broker_Description = ''a broker'',
       BrokerURL = ''http://srv'', broker_Credentials = None, Catalog = ''{}'',
       Services = [example_offering] \<rparr>"

definition free_plans_public :: publicPlanProcessor where
  "free_plans_public broker serviceOffering servicePlan = Inr (Free servicePlan)"

definition example_supportedPlatforms :: supportedPlatformsFunc where
  "example_supportedPlatforms servicePlan =
     (if ID servicePlan = ''plan-B'' then example_types else [])"

definition world_C :: World where
  "world_C =
     \<lparr> visibilities = [paid_row, row_b1, row_b2, row_b3, row_b4, row_b5],
       platforms = example_platforms,
       next_paging_sequence = 7,
       uuids = [''u1'', ''u2'', ''u3''],
       clock = example_clock,
       clock_reads = 0 \<rparr>"

definition world_C' :: World where
  "world_C' =
     \<lparr> visibilities =
         [row_b1, row_b5,
          \<lparr> ID = ''u1'', CreatedAt = 50, UpdatedAt = 50, Labels = [], PagingSequence = 7,
            Ready = False, PlatformID = [], ServicePlanID = ''plan-A'' \<rparr>,
          \<lparr> ID = ''u2'', CreatedAt = 51, UpdatedAt = 51, Labels = [], PagingSequence = 8,
            Ready = False, PlatformID = ''pl-2'', ServicePlanID = ''plan-B'' \<rparr>],
       platforms = example_platforms,
       next_paging_sequence = 9,
       uuids = [''u3''],
       clock = example_clock,
       clock_reads = 2 \<rparr>"

text \<open>The claim's condition on a stored and a fetched catalog: some offering, or some plan of
  an offering matched by catalog id, has the catalog name of a stored one and another
  catalog id.\<close>

definition id_changed_name_kept ::
  "ServiceOffering list \<Rightarrow> ServiceOffering list \<Rightarrow> bool" where
  "id_changed_name_kept stored fetched \<longleftrightarrow>
     (\<exists>s\<in>set stored. \<exists>n\<in>set fetched.
        offering_CatalogName n = offering_CatalogName s \<and>
        offering_CatalogID n \<noteq> offering_CatalogID s) \<or>
     (\<exists>s\<in>set stored. \<exists>n\<in>set fetched. offering_CatalogID n = offering_CatalogID s \<and>
        (\<exists>p\<in>set (Plans s). \<exists>q\<in>set (Plans n).
           plan_CatalogName q = plan_CatalogName p \<and> plan_CatalogID q \<noteq> plan_CatalogID p))"

text \<open>A manager with one broker, an instance of its plan \<open>plan-A\<close>, and a broker server
  whose catalog now gives that plan the catalog id \<open>new-id\<close> under its old name; a PATCH
  with an empty JSON body and one whose content type is not JSON.\<close>

definition changed_catalog :: "ServiceOffering list" where
  "changed_catalog =
     [example_offering\<lparr>Plans := [(example_plan ''plan-A'')\<lparr>plan_CatalogID := ''new-id''\<rparr>,
                                 example_plan ''plan-B'']\<rparr>]"

definition example_instance :: ServiceInstance where
  "example_instance =
     \<lparr> ID = ''instance-1'', CreatedAt = 0, UpdatedAt = 0, Labels = [], PagingSequence = 0,
       Ready = True, instance_Name = ''db'', instance_ServicePlanID = ''plan-A'',
       instance_PlatformID = ''pl-1'' \<rparr>"

definition example_manager :: ServiceManager where
  "example_manager =
     \<lparr> brokers = [example_broker],
       instances = [example_instance],
       storage = world_C',
       broker_servers = [(''http://srv'', CatalogBody ''{changed}'' (Some changed_catalog))],
       CatalogEndpointRequests = [] \<rparr>"

definition empty_patch :: PatchRequest where
  "empty_patch =
     \<lparr> content_type_json = True,
       json_body = Some \<lparr> patch_name = None, patch_description = None,
                          patch_broker_url = None, patch_credentials = None \<rparr> \<rparr>"

definition text_patch :: PatchRequest where
  "text_patch = \<lparr> content_type_json = False, json_body = None \<rparr>"

text \<open>A PATCH with JSON content type whose body is not valid JSON; and, for a manager
  with a second broker, a PATCH that gives the first broker the name of the second.\<close>

definition invalid_json_patch :: PatchRequest where
  "invalid_json_patch = \<lparr> content_type_json = True, json_body = None \<rparr>"

definition second_broker :: ServiceBroker where
  "second_broker =
     example_broker\<lparr>ID := ''broker-2'', broker_Name := ''broker-2'',
                      BrokerURL := ''http://other'', Services := []\<rparr>"

definition crowded_manager :: ServiceManager where
  "crowded_manager = example_manager\<lparr>brokers := [example_broker, second_broker]\<rparr>"

definition rename_body :: PatchBody where
  "rename_body = \<lparr> patch_name = Some ''broker-2'', patch_description = None,
                    patch_broker_url = None, patch_credentials = None \<rparr>"

definition rename_patch :: PatchRequest where
  "rename_patch = \<lparr> content_type_json = True, json_body = Some rename_body \<rparr>"

section \<open>Settings validation: results\<close>

lemma validate_pools_None_iff:
  "validate_pools ps = None \<longleftrightarrow> list_all (\<lambda>p. 0 < Size p) ps"
  by (induction ps) (auto simp: PoolSettings_Validate_def)

lemma DefaultSettings_above_min: "settings_above_min DefaultSettings"
  by (simp add: settings_above_min_def DefaultSettings_def minTimePeriod_def Nanosecond_def
      defaultActionTimeout_def defaultOperationLifespan_def defaultCleanupInterval_def
      Hour_def Second_def)

text \<open>
  C8, as the specification words it: \<^verbatim>\<open>Validate\<close> returns \<^verbatim>\<open>nil\<close> whenever every
  duration is above zero nanoseconds and every pool size above zero. It fails for the
  default settings with an action timeout of exactly one nanosecond: the code compares
  with \<^verbatim>\<open>minTimePeriod\<close>, one nanosecond, by \<^verbatim>\<open><=\<close>, and returns the error "ActionTimeout
  must be larger than 1ns".
\<close>

theorem Settings_Validate_one_nanosecond_rejected:
  "spec_settings_valid one_nanosecond_settings \<and>
   Settings_Validate one_nanosecond_settings = Some ActionTimeoutTooSmall"
  by (simp add: spec_settings_valid_def one_nanosecond_settings_def Settings_Validate_def
      DefaultSettings_def minTimePeriod_def Nanosecond_def
      defaultActionTimeout_def defaultOperationLifespan_def defaultCleanupInterval_def
      Hour_def Second_def)

text \<open>
  C8, amended: \<^verbatim>\<open>Validate\<close> returns \<^verbatim>\<open>nil\<close> when every duration setting is above one
  nanosecond, \<^verbatim>\<open>DefaultPoolSize\<close> is above zero and every pool override has a size above
  zero; and when it returns \<^verbatim>\<open>nil\<close>, the durations \<^verbatim>\<open>ActionTimeout\<close>,
  \<^verbatim>\<open>ReconciliationOperationTimeout\<close>, \<^verbatim>\<open>CleanupInterval\<close>, \<^verbatim>\<open>ReschedulingInterval\<close> and
  \<^verbatim>\<open>PollingInterval\<close> are above one nanosecond and all pool sizes are above zero: it
  returns an error whenever one of these five durations is at most one nanosecond or a
  pool size is at most zero.
\<close>

theorem Settings_Validate_nil:
  "(settings_above_min s \<longrightarrow> Settings_Validate s = None) \<and>
   (Settings_Validate s = None \<longrightarrow> checked_settings_above_min s)"
  by (auto simp: settings_above_min_def checked_settings_above_min_def Settings_Validate_def
      validate_pools_None_iff split: if_splits)

theorem Settings_Validate_nil_witness:
  "settings_above_min DefaultSettings \<and> Settings_Validate DefaultSettings = None \<and>
   checked_settings_above_min DefaultSettings"
  using Settings_Validate_nil [of DefaultSettings] DefaultSettings_above_min by simp

section \<open>Platform entity: results\<close>

text \<open>
  C10: for a platform whose \<^verbatim>\<open>Credentials\<close> and \<^verbatim>\<open>Credentials.Basic\<close> are not
  \<^verbatim>\<open>nil\<close>, \<^verbatim>\<open>FromObject\<close> succeeds and \<^verbatim>\<open>ToObject\<close> of its result has the platform's
  ID, CreatedAt, UpdatedAt, PagingSequence, Ready, Type, Name, Description, Active,
  LastActive and basic username and password, the description provided that
  \<^verbatim>\<open>toNullString\<close> stores its argument in the \<^verbatim>\<open>String\<close> field; and \<^verbatim>\<open>ToObject\<close> of
  any entity, also one with empty credential columns, has \<^verbatim>\<open>Credentials\<close> and
  \<^verbatim>\<open>Credentials.Basic\<close> that are not \<^verbatim>\<open>nil\<close>.
\<close>

theorem Platform_FromObject_ToObject:
  "(Credentials platform = Some credentials \<and> Basic credentials = Some basic \<and>
    String (toNullString (Description platform)) = Description platform \<longrightarrow>
      (\<exists>entity. Platform_FromObject toNullString (PlatformObject platform) = Some entity \<and>
         ID (Platform_ToObject entity) = ID platform \<and>
         CreatedAt (Platform_ToObject entity) = CreatedAt platform \<and>
         UpdatedAt (Platform_ToObject entity) = UpdatedAt platform \<and>
         PagingSequence (Platform_ToObject entity) = PagingSequence platform \<and>
         Ready (Platform_ToObject entity) = Ready platform \<and>
         Type (Platform_ToObject entity) = Type platform \<and>
         Name (Platform_ToObject entity) = Name platform \<and>
         Description (Platform_ToObject entity) = Description platform \<and>
         Active (Platform_ToObject entity) = Active platform \<and>
         LastActive (Platform_ToObject entity) = LastActive platform \<and>
         (\<exists>c b. Credentials (Platform_ToObject entity) = Some c \<and> Basic c = Some b \<and>
            Username b = Username basic \<and> Password b = Password basic))) \<and>
   (\<exists>c b. Credentials (Platform_ToObject p) = Some c \<and> Basic c = Some b \<and>
      (ent_Username p = [] \<and> ent_Password p = [] \<longrightarrow> Username b = [] \<and> Password b = []))"
  by (simp add: Platform_FromObject_def Platform_ToObject_def Let_def)

theorem Platform_FromObject_ToObject_witness:
  "Credentials example_platform =
     Some \<lparr> Basic = Some \<lparr> Username = ''admin'', Password = ''secret'' \<rparr>,
            Checksum = replicate 32 1 \<rparr> \<and>
   String (example_toNullString (Description example_platform)) = Description example_platform \<and>
   (\<exists>entity. Platform_FromObject example_toNullString (PlatformObject example_platform) =
        Some entity \<and>
      Description (Platform_ToObject entity) = ''a cluster'' \<and>
      (\<exists>c b. Credentials (Platform_ToObject entity) = Some c \<and> Basic c = Some b \<and>
         Username b = ''admin'' \<and> Password b = ''secret'')) \<and>
   ent_Username example_entity = [] \<and> ent_Password example_entity = [] \<and>
   (\<exists>c b. Credentials (Platform_ToObject example_entity) = Some c \<and> Basic c = Some b \<and>
      Username b = [] \<and> Password b = [])"
  using Platform_FromObject_ToObject [where platform = example_platform
      and credentials = "\<lparr> Basic = Some \<lparr> Username = ''admin'', Password = ''secret'' \<rparr>,
         Checksum = replicate 32 1 \<rparr>"
      and basic = "\<lparr> Username = ''admin'', Password = ''secret'' \<rparr>"
      and toNullString = example_toNullString and p = example_entity]
  by (auto simp: example_platform_def example_toNullString_def example_entity_def)

section \<open>Visibility reconciler: the loops and their effect\<close>

lemma delete_ids_empty [simp]: "delete_ids {} w = w"
  by (simp add: delete_ids_def)

lemma delete_ids_delete_ids: "delete_ids D (delete_ids E w) = delete_ids (E \<union> D) w"
  by (simp add: delete_ids_def conj_commute)

lemma Delete_visibility_by_id_eq: "Delete_visibility_by_id w i = Inr (delete_ids {i} w)"
  by (simp add: Delete_visibility_by_id_def delete_ids_def)

lemma loopA_step:
  "resyncPublicPlanVisibilities_loop pub (v # vs) ex w =
     (if caseA_keeps pub v then resyncPublicPlanVisibilities_loop pub vs (ex \<or> pub) w
      else resyncPublicPlanVisibilities_loop pub vs ex (delete_ids {ID v} w))"
  by (simp add: caseA_keeps_def Delete_visibility_by_id_eq)

lemma loopA:
  "resyncPublicPlanVisibilities_loop pub vs ex w =
     Inr (ex \<or> (pub \<and> (\<exists>v\<in>set vs. PlatformID v = [])),
          delete_ids (ID ` {v \<in> set vs. \<not> caseA_keeps pub v}) w)"
proof (induction vs arbitrary: ex w)
  case Nil
  show ?case by simp
next
  case (Cons v vs)
  have *: "ID ` {x \<in> set (v # vs). \<not> caseA_keeps pub x} =
           (if caseA_keeps pub v then {} else {ID v}) \<union> ID ` {x \<in> set vs. \<not> caseA_keeps pub x}"
    by auto
  show ?case
    unfolding loopA_step Cons.IH *
    by (cases "caseA_keeps pub v") (auto simp: delete_ids_delete_ids caseA_keeps_def)
qed

lemma matches_from: "snd (platformsAnyMatchesVisibility_from i ps v) \<longleftrightarrow> PlatformID v \<in> ID ` set ps"
  by (induction ps arbitrary: i) auto

lemma index_from_ge: "snd (platformsAnyMatchesVisibility_from i ps v) \<Longrightarrow> i \<le> fst (platformsAnyMatchesVisibility_from i ps v)"
  by (induction ps arbitrary: i) (auto split: if_splits, force)

lemma remove_at_from:
  "snd (platformsAnyMatchesVisibility_from i ps v) \<Longrightarrow>
   remove_at (fst (platformsAnyMatchesVisibility_from i ps v) - i) ps = remove_platform (PlatformID v) ps"
proof (induction ps arbitrary: i)
  case Nil
  then show ?case by simp
next
  case (Cons p ps)
  show ?case
  proof (cases "PlatformID v = ID p")
    case True
    then show ?thesis by (simp add: remove_at_def)
  next
    case False
    with Cons.prems have m: "snd (platformsAnyMatchesVisibility_from (i + 1) ps v)" by simp
    from index_from_ge [OF m] have ge: "i + 1 \<le> fst (platformsAnyMatchesVisibility_from (i + 1) ps v)" .
    define k where "k = fst (platformsAnyMatchesVisibility_from (i + 1) ps v) - (i + 1)"
    have k0: "0 \<le> k" using ge by (simp add: k_def)
    have eq: "fst (platformsAnyMatchesVisibility_from (i + 1) ps v) - i = k + 1" by (simp add: k_def)
    have "remove_at (k + 1) (p # ps) = p # remove_at k ps"
      using k0 by (simp add: remove_at_def nat_add_distrib)
    moreover have "remove_at k ps = remove_platform (PlatformID v) ps"
      unfolding k_def by (rule Cons.IH [OF m])
    ultimately show ?thesis using False eq by simp
  qed
qed

lemma matches_eq: "snd (platformsAnyMatchesVisibility ps v) \<longleftrightarrow> PlatformID v \<in> ID ` set ps"
  by (simp add: platformsAnyMatchesVisibility_def matches_from)

lemma remove_at_eq:
  "PlatformID v \<in> ID ` set ps \<Longrightarrow>
   remove_at (fst (platformsAnyMatchesVisibility ps v)) ps = remove_platform (PlatformID v) ps"
  using remove_at_from [of 0 ps v] by (simp add: platformsAnyMatchesVisibility_def matches_from)

lemma loopB_step_public:
  "resyncPlanVisibilitiesWithSupportedPlatforms_loop True (v # vs) ps w =
     (if PlatformID v \<in> ID ` set ps \<and> Labels v = []
      then resyncPlanVisibilitiesWithSupportedPlatforms_loop True vs
             (remove_platform (PlatformID v) ps) w
      else resyncPlanVisibilitiesWithSupportedPlatforms_loop True vs ps (delete_ids {ID v} w))"
  using matches_eq [of ps v] remove_at_eq [of v ps]
  by (cases "platformsAnyMatchesVisibility ps v") (auto simp: Delete_visibility_by_id_eq)

lemma loopB_step_private:
  "resyncPlanVisibilitiesWithSupportedPlatforms_loop False (v # vs) ps w =
     (if caseB_private_keeps ps v
      then resyncPlanVisibilitiesWithSupportedPlatforms_loop False vs ps w
      else resyncPlanVisibilitiesWithSupportedPlatforms_loop False vs ps (delete_ids {ID v} w))"
  using matches_eq [of ps v]
  by (cases "platformsAnyMatchesVisibility ps v") (auto simp: Delete_visibility_by_id_eq caseB_private_keeps_def)

lemma loopB_public:
  "resyncPlanVisibilitiesWithSupportedPlatforms_loop True vs ps w =
     Inr (uncovered ps vs, delete_ids (ID ` set (deleted_public ps vs)) w)"
proof (induction vs arbitrary: ps w)
  case Nil
  show ?case by simp
next
  case (Cons v vs)
  show ?case
    unfolding loopB_step_public Cons.IH
    by (simp add: delete_ids_delete_ids)
qed

lemma loopB_private:
  "resyncPlanVisibilitiesWithSupportedPlatforms_loop False vs ps w =
     Inr (ps, delete_ids (ID ` {v \<in> set vs. \<not> caseB_private_keeps ps v}) w)"
proof (induction vs arbitrary: w)
  case Nil
  show ?case by simp
next
  case (Cons v vs)
  have *: "ID ` {x \<in> set (v # vs). \<not> caseB_private_keeps ps x} =
           (if caseB_private_keeps ps v then {} else {ID v}) \<union> ID ` {x \<in> set vs. \<not> caseB_private_keeps ps x}"
    by auto
  show ?case
    unfolding loopB_step_private Cons.IH *
    by (simp add: delete_ids_delete_ids)
qed

lemma persistVisibility_Inr_iff:
  "persistVisibility w platformID planID brokerID = Inr w' \<longleftrightarrow>
     uuids w \<noteq> [] \<and> hd (uuids w) \<notin> ID ` set (visibilities w) \<and>
     w' = w\<lparr>uuids := tl (uuids w), clock_reads := clock_reads w + 1,
            visibilities := visibilities w @ [stored_visibility w platformID planID],
            next_paging_sequence := next_paging_sequence w + 1\<rparr>"
  by (auto simp: persistVisibility_def Create_visibility_def stored_visibility_def Let_def
      split: list.splits)

lemma persistVisibility_each_Inr:
  "persistVisibility_each ps planID brokerID w = Inr w' \<Longrightarrow>
     \<exists>created. visibilities w' = visibilities w @ created \<and>
       map PlatformID created = map ID ps \<and>
       map ID created = take (length ps) (uuids w) \<and>
       (\<forall>c\<in>set created. Labels c = [] \<and> ServicePlanID c = planID) \<and>
       platforms w' = platforms w \<and> clock w' = clock w \<and>
       uuids w' = drop (length ps) (uuids w) \<and>
       length ps \<le> length (uuids w) \<and>
       (distinct (map ID (visibilities w)) \<longrightarrow> distinct (map ID (visibilities w')))"
proof (induction ps arbitrary: w)
  case Nil
  then show ?case by simp
next
  case (Cons p ps)
  from Cons.prems obtain w1 where
    one: "persistVisibility w (ID p) planID brokerID = Inr w1" and
    rest: "persistVisibility_each ps planID brokerID w1 = Inr w'"
    by (auto split: sum.splits)
  from one have ne: "uuids w \<noteq> []" and fresh: "hd (uuids w) \<notin> ID ` set (visibilities w)"
    and w1: "w1 = w\<lparr>uuids := tl (uuids w), clock_reads := clock_reads w + 1,
            visibilities := visibilities w @ [stored_visibility w (ID p) planID],
            next_paging_sequence := next_paging_sequence w + 1\<rparr>"
    by (simp_all add: persistVisibility_Inr_iff)
  from Cons.IH [OF rest] obtain created where
    c: "visibilities w' = visibilities w1 @ created"
       "map PlatformID created = map ID ps"
       "map ID created = take (length ps) (uuids w1)"
       "\<forall>c\<in>set created. Labels c = [] \<and> ServicePlanID c = planID"
       "platforms w' = platforms w1" "clock w' = clock w1"
       "uuids w' = drop (length ps) (uuids w1)"
       "length ps \<le> length (uuids w1)"
       "distinct (map ID (visibilities w1)) \<longrightarrow> distinct (map ID (visibilities w'))"
    by blast
  let ?new = "stored_visibility w (ID p) planID"
  have u: "uuids w = hd (uuids w) # tl (uuids w)" using ne by simp
  have 1: "visibilities w' = visibilities w @ (?new # created)"
    using c(1) w1 by simp
  have 2: "map PlatformID (?new # created) = map ID (p # ps)"
    using c(2) by (simp add: stored_visibility_def)
  have 3: "map ID (?new # created) = take (length (p # ps)) (uuids w)"
    using c(3) w1 by (subst u) (simp add: stored_visibility_def)
  have 4: "\<forall>c\<in>set (?new # created). Labels c = [] \<and> ServicePlanID c = planID"
    using c(4) by (simp add: stored_visibility_def)
  have 5: "platforms w' = platforms w" "clock w' = clock w"
    using c(5,6) w1 by simp_all
  have 6: "uuids w' = drop (length (p # ps)) (uuids w)"
    using c(7) w1 by (subst u) simp
  have 7: "length (p # ps) \<le> length (uuids w)"
    using c(8) w1 by (subst u) simp
  have 8: "distinct (map ID (visibilities w)) \<longrightarrow> distinct (map ID (visibilities w'))"
    using c(9) w1 fresh by (auto simp: stored_visibility_def)
  from 1 2 3 4 5 6 7 8 show ?case by blast
qed

lemma persistVisibility_each_succeeds:
  "fresh_uuids (length ps) w \<Longrightarrow> \<exists>w'. persistVisibility_each ps planID brokerID w = Inr w'"
proof (induction ps arbitrary: w)
  case Nil
  then show ?case by simp
next
  case (Cons p ps)
  from Cons.prems obtain u us where u: "uuids w = u # us"
    by (cases "uuids w") (auto simp: fresh_uuids_def)
  from Cons.prems u have fresh: "u \<notin> ID ` set (visibilities w)"
    and d: "u \<notin> set (take (length ps) us)" "distinct (take (length ps) us)"
    and len: "length ps \<le> length us"
    and disj: "set (take (length ps) us) \<inter> ID ` set (visibilities w) = {}"
    by (auto simp: fresh_uuids_def)
  define w1 where "w1 = w\<lparr>uuids := tl (uuids w), clock_reads := clock_reads w + 1,
            visibilities := visibilities w @ [stored_visibility w (ID p) planID],
            next_paging_sequence := next_paging_sequence w + 1\<rparr>"
  have one: "persistVisibility w (ID p) planID brokerID = Inr w1"
    using u fresh by (simp add: persistVisibility_Inr_iff w1_def)
  have "fresh_uuids (length ps) w1"
    using d len disj u by (auto simp: fresh_uuids_def w1_def stored_visibility_def)
  from Cons.IH [OF this] obtain w' where "persistVisibility_each ps planID brokerID w1 = Inr w'"
    by blast
  with one show ?case by simp
qed

lemma resyncPublicPlanVisibilities_eq:
  "resyncPublicPlanVisibilities w vs pub planID brokerID =
     (if pub \<and> (\<forall>v\<in>set vs. PlatformID v \<noteq> [])
      then persistVisibility (delete_ids (ID ` {v \<in> set vs. \<not> caseA_keeps pub v}) w) [] planID brokerID
      else Inr (delete_ids (ID ` {v \<in> set vs. \<not> caseA_keeps pub v}) w))"
  by (auto simp: resyncPublicPlanVisibilities_def loopA)

lemma resyncPlanVisibilitiesWithSupportedPlatforms_eq:
  "resyncPlanVisibilitiesWithSupportedPlatforms w vs pub planID brokerID types =
     (if pub
      then persistVisibility_each
             (uncovered (filter (\<lambda>p. Type p \<in> set types) (platforms w)) vs) planID brokerID
             (delete_ids
                (ID ` set (deleted_public (filter (\<lambda>p. Type p \<in> set types) (platforms w)) vs)) w)
      else Inr (delete_ids
                (ID ` {v \<in> set vs. \<not> caseB_private_keeps (filter (\<lambda>p. Type p \<in> set types) (platforms w)) v})
                w))"
  by (simp add: resyncPlanVisibilitiesWithSupportedPlatforms_def List_platforms_by_type_in_def
      loopB_public loopB_private)

lemma distinct_ID_eq:
  "distinct (map ID rows) \<Longrightarrow> x \<in> set rows \<Longrightarrow> y \<in> set rows \<Longrightarrow> ID x = ID y \<Longrightarrow> x = y"
  by (auto simp: distinct_map dest: inj_onD)

lemma filter_by_ids:
  assumes "distinct (map ID rows)" and "D \<subseteq> set rows"
  shows "filter (\<lambda>v. ID v \<notin> ID ` D) rows = filter (\<lambda>v. v \<notin> D) rows"
proof (rule filter_cong [OF refl])
  fix x assume x: "x \<in> set rows"
  show "(ID x \<notin> ID ` D) = (x \<notin> D)"
  proof
    assume "ID x \<notin> ID ` D" then show "x \<notin> D" by blast
  next
    assume n: "x \<notin> D"
    show "ID x \<notin> ID ` D"
    proof
      assume "ID x \<in> ID ` D"
      then obtain y where y: "y \<in> D" "ID x = ID y" by blast
      with assms(2) have "y \<in> set rows" by blast
      from distinct_ID_eq [OF assms(1) x this y(2)] y(1) n show False by simp
    qed
  qed
qed

lemma delete_ids_by_predicate:
  assumes "distinct (map ID (visibilities w))"
  shows "delete_ids (ID ` {v \<in> set (filter (\<lambda>v. ServicePlanID v = planID) (visibilities w)). \<not> K v}) w =
         w\<lparr>visibilities := filter (\<lambda>v. ServicePlanID v \<noteq> planID \<or> K v) (visibilities w)\<rparr>"
proof -
  let ?D = "{v \<in> set (filter (\<lambda>v. ServicePlanID v = planID) (visibilities w)). \<not> K v}"
  have "?D \<subseteq> set (visibilities w)" by auto
  from filter_by_ids [OF assms this]
  have "filter (\<lambda>v. ID v \<notin> ID ` ?D) (visibilities w) = filter (\<lambda>v. v \<notin> ?D) (visibilities w)" .
  also have "\<dots> = filter (\<lambda>v. ServicePlanID v \<noteq> planID \<or> K v) (visibilities w)"
    by (rule filter_cong) auto
  finally show ?thesis by (simp add: delete_ids_def)
qed

lemma deleted_public_subset: "set (deleted_public ps vs) \<subseteq> set vs"
  by (induction vs arbitrary: ps) auto

lemma delete_ids_deleted_public:
  assumes "distinct (map ID (visibilities w))"
  shows "delete_ids (ID ` set (deleted_public ps (filter (\<lambda>v. ServicePlanID v = planID) (visibilities w)))) w =
         w\<lparr>visibilities := filter (\<lambda>v. v \<notin> set (deleted_public ps (filter (\<lambda>v. ServicePlanID v = planID) (visibilities w)))) (visibilities w)\<rparr>"
proof -
  let ?D = "set (deleted_public ps (filter (\<lambda>v. ServicePlanID v = planID) (visibilities w)))"
  have "?D \<subseteq> set (visibilities w)" using deleted_public_subset by fastforce
  from filter_by_ids [OF assms this] show ?thesis by (simp add: delete_ids_def)
qed

lemma filter_not_deleted_public:
  "distinct vs \<Longrightarrow> filter (\<lambda>v. v \<notin> set (deleted_public ps vs)) vs = kept_public ps vs"
proof (induction vs arbitrary: ps)
  case Nil
  then show ?case by simp
next
  case (Cons v vs)
  have v: "v \<notin> set vs" and d: "distinct vs" using Cons.prems by simp_all
  show ?case
  proof (cases "PlatformID v \<in> ID ` set ps \<and> Labels v = []")
    case True
    have "v \<notin> set (deleted_public (remove_platform (PlatformID v) ps) vs)"
      using v deleted_public_subset by blast
    with True show ?thesis using Cons.IH [OF d] by simp
  next
    case False
    have "filter (\<lambda>x. x \<noteq> v \<and> x \<notin> set (deleted_public ps vs)) vs =
          filter (\<lambda>x. x \<notin> set (deleted_public ps vs)) vs"
      by (rule filter_cong) (use v in auto)
    with False show ?thesis using Cons.IH [OF d] by auto
  qed
qed

lemma deleted_public_kept_public: "deleted_public ps (kept_public ps vs) = []"
  by (induction vs arbitrary: ps) auto

lemma uncovered_kept_public: "uncovered ps (kept_public ps vs) = uncovered ps vs"
  by (induction vs arbitrary: ps) auto

lemma deleted_public_append:
  "deleted_public ps (xs @ ys) = deleted_public ps xs @ deleted_public (uncovered ps xs) ys"
  by (induction xs arbitrary: ps) auto

lemma uncovered_append: "uncovered ps (xs @ ys) = uncovered (uncovered ps xs) ys"
  by (induction xs arbitrary: ps) auto

lemma created_settled:
  "map PlatformID cs = map ID rs \<Longrightarrow> \<forall>c\<in>set cs. Labels c = [] \<Longrightarrow>
   deleted_public rs cs = [] \<and> uncovered rs cs = []"
proof (induction rs arbitrary: cs)
  case Nil
  then show ?case by simp
next
  case (Cons r rs)
  then obtain c cs' where cs: "cs = c # cs'" by (cases cs) auto
  with Cons.prems have "PlatformID c = ID r" "Labels c = []" "map PlatformID cs' = map ID rs"
    "\<forall>c\<in>set cs'. Labels c = []" by auto
  with Cons.IH [of cs'] cs show ?case by simp
qed

lemma resync_plan_eq:
  "resync_plan broker f sp off p w =
     (case f broker off p of
        Inl err \<Rightarrow> Inl err
      | Inr pub \<Rightarrow>
          if sp p = []
          then resyncPublicPlanVisibilities w (plan_rows (ID p) w) pub (ID p) (ID broker)
          else resyncPlanVisibilitiesWithSupportedPlatforms w (plan_rows (ID p) w) pub (ID p)
                 (ID broker) (sp p))"
  by (simp add: resync_plan_def List_visibilities_by_service_plan_id_def plan_rows_def Let_def
      split: sum.splits)

lemma delete_ids_none:
  assumes "\<forall>v\<in>set vs. K v"
  shows "delete_ids (ID ` {v \<in> set vs. \<not> K v}) w = w"
proof -
  from assms have "{v \<in> set vs. \<not> K v} = {}" by blast
  then show ?thesis by (simp only: image_empty delete_ids_empty)
qed

lemma settled_noop:
  assumes "plan_settled broker f sp off p w"
  shows "resync_plan broker f sp off p w = Inr w"
proof -
  from assms obtain pub where pub: "f broker off p = Inr pub"
    and s: "settled pub (sp p) (ID p) w"
    by (auto simp: plan_settled_def)
  show ?thesis
  proof (cases "sp p = []")
    case True
    with s have k: "\<forall>v\<in>set (plan_rows (ID p) w). caseA_keeps pub v"
      and e: "pub \<longrightarrow> (\<exists>v\<in>set (plan_rows (ID p) w). PlatformID v = [])"
      by (simp_all add: settled_def)
    have d: "delete_ids (ID ` {v \<in> set (plan_rows (ID p) w). \<not> caseA_keeps pub v}) w = w"
      by (rule delete_ids_none [OF k])
    from e have c: "\<not> (pub \<and> (\<forall>v\<in>set (plan_rows (ID p) w). PlatformID v \<noteq> []))"
      by blast
    have "resyncPublicPlanVisibilities w (plan_rows (ID p) w) pub (ID p) (ID broker) =
          Inr (delete_ids (ID ` {v \<in> set (plan_rows (ID p) w). \<not> caseA_keeps pub v}) w)"
      by (subst resyncPublicPlanVisibilities_eq) (rule if_not_P [OF c])
    then show ?thesis
      using True pub d by (simp add: resync_plan_eq)
  next
    case False
    show ?thesis
    proof (cases pub)
      case True
      with s False show ?thesis
        using pub
        by (simp add: resync_plan_eq resyncPlanVisibilitiesWithSupportedPlatforms_eq settled_def
            supported_platforms_of_def)
    next
      case np: False
      with s False have "\<forall>v\<in>set (plan_rows (ID p) w). caseB_private_keeps (supported_platforms_of (sp p) w) v"
        by (simp add: settled_def)
      from delete_ids_none [OF this, of w] show ?thesis
        using pub np False
        by (simp add: resync_plan_eq resyncPlanVisibilitiesWithSupportedPlatforms_eq
            supported_platforms_of_def)
    qed
  qed
qed

lemma settled_cong:
  "plan_rows planID w2 = plan_rows planID w \<Longrightarrow> platforms w2 = platforms w \<Longrightarrow>
   settled pub types planID w2 = settled pub types planID w"
  by (simp add: settled_def supported_platforms_of_def)

lemma plan_settled_cong:
  "plan_rows (ID p) w2 = plan_rows (ID p) w \<Longrightarrow> platforms w2 = platforms w \<Longrightarrow>
   plan_settled broker f sp off p w \<Longrightarrow> plan_settled broker f sp off p w2"
  unfolding plan_settled_def using settled_cong [of "ID p" w2 w] by auto

lemma delete_ids_plan_rows:
  assumes "distinct (map ID (visibilities w))"
  shows "delete_ids (ID ` {v \<in> set (plan_rows planID w). \<not> K v}) w =
         w\<lparr>visibilities := filter (\<lambda>v. ServicePlanID v \<noteq> planID \<or> K v) (visibilities w)\<rparr>"
  unfolding plan_rows_def by (rule delete_ids_by_predicate [OF assms])

lemma delete_ids_deleted_public_rows:
  assumes "distinct (map ID (visibilities w))"
  shows "delete_ids (ID ` set (deleted_public ps (plan_rows planID w))) w =
         w\<lparr>visibilities :=
             filter (\<lambda>v. v \<notin> set (deleted_public ps (plan_rows planID w))) (visibilities w)\<rparr>"
  unfolding plan_rows_def by (rule delete_ids_deleted_public [OF assms])

lemma distinct_plan_rows:
  "distinct (map ID (visibilities w)) \<Longrightarrow> distinct (plan_rows planID w)"
  by (simp add: plan_rows_def distinct_map)

lemma plan_rows_kept:
  "plan_rows pid (w\<lparr>visibilities := filter (\<lambda>v. ServicePlanID v \<noteq> planID \<or> K v) (visibilities w)\<rparr>) =
     (if pid = planID then filter K (plan_rows planID w) else plan_rows pid w)"
proof -
  have 1: "filter (\<lambda>v. ServicePlanID v = planID \<and> (ServicePlanID v \<noteq> planID \<or> K v)) (visibilities w) =
        filter (\<lambda>v. K v \<and> ServicePlanID v = planID) (visibilities w)"
    by (rule filter_cong) auto
  have 2: "pid \<noteq> planID \<Longrightarrow>
        filter (\<lambda>v. ServicePlanID v = pid \<and> (ServicePlanID v \<noteq> planID \<or> K v)) (visibilities w) =
        filter (\<lambda>v. ServicePlanID v = pid) (visibilities w)"
    by (rule filter_cong) auto
  show ?thesis using 1 2 by (simp add: plan_rows_def conj_commute)
qed

lemma caseA_result:
  assumes d: "distinct (map ID (visibilities w))"
    and r: "resyncPublicPlanVisibilities w (plan_rows planID w) pub planID brokerID = Inr w'"
  shows "platforms w' = platforms w"
    and "distinct (map ID (visibilities w'))"
    and "pid \<noteq> planID \<Longrightarrow> plan_rows pid w' = plan_rows pid w"
    and "settled pub [] planID w'"
proof -
  let ?K = "caseA_keeps pub"
  define w1 where "w1 = w\<lparr>visibilities := filter (\<lambda>v. ServicePlanID v \<noteq> planID \<or> ?K v) (visibilities w)\<rparr>"
  have w1: "delete_ids (ID ` {v \<in> set (plan_rows planID w). \<not> ?K v}) w = w1"
    unfolding w1_def by (rule delete_ids_plan_rows [OF d])
  have d1: "distinct (map ID (visibilities w1))"
    using d by (simp add: w1_def distinct_map_filter)
  have rows1: "plan_rows planID w1 = filter ?K (plan_rows planID w)"
    unfolding w1_def plan_rows_kept by simp
  have other1: "pid \<noteq> planID \<Longrightarrow> plan_rows pid w1 = plan_rows pid w" for pid
    unfolding w1_def plan_rows_kept by simp
  have p1: "platforms w1 = platforms w" by (simp add: w1_def)
  show "platforms w' = platforms w"
    and "distinct (map ID (visibilities w'))"
    and "pid \<noteq> planID \<Longrightarrow> plan_rows pid w' = plan_rows pid w"
    and "settled pub [] planID w'"
  proof -
    consider (create) "pub" "\<forall>v\<in>set (plan_rows planID w). PlatformID v \<noteq> []"
      | (keep) "\<not> (pub \<and> (\<forall>v\<in>set (plan_rows planID w). PlatformID v \<noteq> []))" by blast
    then have "platforms w' = platforms w \<and> distinct (map ID (visibilities w')) \<and>
        (pid \<noteq> planID \<longrightarrow> plan_rows pid w' = plan_rows pid w) \<and> settled pub [] planID w'"
    proof cases
      case create
      with r w1 have "persistVisibility w1 [] planID brokerID = Inr w'"
        by (simp add: resyncPublicPlanVisibilities_eq)
      then have ne: "uuids w1 \<noteq> []" and fresh: "hd (uuids w1) \<notin> ID ` set (visibilities w1)"
        and w': "w' = w1\<lparr>uuids := tl (uuids w1), clock_reads := clock_reads w1 + 1,
            visibilities := visibilities w1 @ [stored_visibility w1 [] planID],
            next_paging_sequence := next_paging_sequence w1 + 1\<rparr>"
        by (simp_all add: persistVisibility_Inr_iff)
      have rows': "plan_rows planID w' = plan_rows planID w1 @ [stored_visibility w1 [] planID]"
        by (simp add: w' plan_rows_def stored_visibility_def)
      have other': "pid \<noteq> planID \<Longrightarrow> plan_rows pid w' = plan_rows pid w1"
        by (simp add: w' plan_rows_def stored_visibility_def)
      have "settled pub [] planID w'"
        using create(1) by (auto simp: settled_def rows' rows1 caseA_keeps_def stored_visibility_def)
      moreover have "distinct (map ID (visibilities w'))"
        using d1 fresh by (auto simp: w' stored_visibility_def)
      moreover have "platforms w' = platforms w" using p1 by (simp add: w')
      ultimately show ?thesis using other' other1 by simp
    next
      case keep
      with r w1 have w': "w' = w1"
        by (simp add: resyncPublicPlanVisibilities_eq)
      have "settled pub [] planID w1"
        using keep by (auto simp: settled_def rows1 caseA_keeps_def)
      then show ?thesis using w' d1 p1 other1 by simp
    qed
    then show "platforms w' = platforms w"
      and "distinct (map ID (visibilities w'))"
      and "pid \<noteq> planID \<Longrightarrow> plan_rows pid w' = plan_rows pid w"
      and "settled pub [] planID w'" by simp_all
  qed
qed

lemma caseB_private_result:
  assumes d: "distinct (map ID (visibilities w))"
    and t: "types \<noteq> []"
    and r: "resyncPlanVisibilitiesWithSupportedPlatforms w (plan_rows planID w) False planID
              brokerID types = Inr w'"
  shows "platforms w' = platforms w"
    and "distinct (map ID (visibilities w'))"
    and "pid \<noteq> planID \<Longrightarrow> plan_rows pid w' = plan_rows pid w"
    and "settled False types planID w'"
proof -
  let ?K = "caseB_private_keeps (supported_platforms_of types w)"
  from r have w': "w' = w\<lparr>visibilities :=
      filter (\<lambda>v. ServicePlanID v \<noteq> planID \<or> ?K v) (visibilities w)\<rparr>"
    unfolding resyncPlanVisibilitiesWithSupportedPlatforms_eq supported_platforms_of_def [symmetric]
      delete_ids_plan_rows [OF d]
    by simp
  show "platforms w' = platforms w" by (simp add: w')
  show "distinct (map ID (visibilities w'))" using d by (simp add: w' distinct_map_filter)
  show "pid \<noteq> planID \<Longrightarrow> plan_rows pid w' = plan_rows pid w"
    unfolding w' plan_rows_kept by simp
  have rows: "plan_rows planID w' = filter ?K (plan_rows planID w)"
    unfolding w' plan_rows_kept by simp
  have sp: "supported_platforms_of types w' = supported_platforms_of types w"
    by (simp add: w' supported_platforms_of_def)
  show "settled False types planID w'"
    using t by (simp add: settled_def rows sp)
qed

lemma caseB_public_result:
  assumes d: "distinct (map ID (visibilities w))"
    and t: "types \<noteq> []"
    and r: "resyncPlanVisibilitiesWithSupportedPlatforms w (plan_rows planID w) True planID
              brokerID types = Inr w'"
  shows "platforms w' = platforms w"
    and "distinct (map ID (visibilities w'))"
    and "pid \<noteq> planID \<Longrightarrow> plan_rows pid w' = plan_rows pid w"
    and "settled True types planID w'"
proof -
  let ?ps = "supported_platforms_of types w"
  let ?vs = "plan_rows planID w"
  let ?dels = "deleted_public ?ps ?vs"
  define w1 where "w1 = w\<lparr>visibilities := filter (\<lambda>v. v \<notin> set ?dels) (visibilities w)\<rparr>"
  from r have each: "persistVisibility_each (uncovered ?ps ?vs) planID brokerID w1 = Inr w'"
    unfolding resyncPlanVisibilitiesWithSupportedPlatforms_eq supported_platforms_of_def [symmetric]
      delete_ids_deleted_public_rows [OF d] w1_def
    by simp
  have d1: "distinct (map ID (visibilities w1))"
    using d by (simp add: w1_def distinct_map_filter)
  from persistVisibility_each_Inr [OF each] d1 obtain created where
    c: "visibilities w' = visibilities w1 @ created"
       "map PlatformID created = map ID (uncovered ?ps ?vs)"
       "\<forall>c\<in>set created. Labels c = [] \<and> ServicePlanID c = planID"
       "platforms w' = platforms w1"
       "distinct (map ID (visibilities w'))"
    by blast
  have sub: "set ?dels \<subseteq> set ?vs" by (rule deleted_public_subset)
  have rows1: "plan_rows planID w1 = kept_public ?ps ?vs"
  proof -
    have "plan_rows planID w1 = filter (\<lambda>v. v \<notin> set ?dels) ?vs"
      by (simp add: w1_def plan_rows_def conj_commute)
    also have "\<dots> = kept_public ?ps ?vs"
      by (rule filter_not_deleted_public [OF distinct_plan_rows [OF d]])
    finally show ?thesis .
  qed
  have other1: "plan_rows pid w1 = plan_rows pid w" if "pid \<noteq> planID"
  proof -
    have "filter (\<lambda>v. ServicePlanID v = pid \<and> v \<notin> set ?dels) (visibilities w) =
          filter (\<lambda>v. ServicePlanID v = pid) (visibilities w)"
      by (rule filter_cong) (use sub that in \<open>auto simp: plan_rows_def\<close>)
    then show ?thesis by (simp add: w1_def plan_rows_def conj_commute)
  qed
  have fc: "filter (\<lambda>v. ServicePlanID v = planID) created = created"
    using c(3) by (simp add: filter_id_conv)
  have fo: "filter (\<lambda>v. ServicePlanID v = pid) created = []" if "pid \<noteq> planID"
    using c(3) that by (auto simp: filter_empty_conv)
  have w'eq: "plan_rows q w' = filter (\<lambda>v. ServicePlanID v = q) (visibilities w1) @
        filter (\<lambda>v. ServicePlanID v = q) created" for q
    by (simp add: plan_rows_def c(1))
  have rows': "plan_rows planID w' = kept_public ?ps ?vs @ created"
    using w'eq [of planID] rows1 fc by (simp add: plan_rows_def)
  show "platforms w' = platforms w" using c(4) by (simp add: w1_def)
  show "distinct (map ID (visibilities w'))" by (rule c(5))
  show "pid \<noteq> planID \<Longrightarrow> plan_rows pid w' = plan_rows pid w"
    using w'eq [of pid] other1 fo by (simp add: plan_rows_def)
  have sp: "supported_platforms_of types w' = ?ps"
    using c(4) by (simp add: w1_def supported_platforms_of_def)
  from created_settled [OF c(2)] c(3)
  have cs: "deleted_public (uncovered ?ps ?vs) created = []"
    "uncovered (uncovered ?ps ?vs) created = []" by simp_all
  show "settled True types planID w'"
    using t cs
    by (simp add: settled_def sp rows' deleted_public_append uncovered_append
        deleted_public_kept_public uncovered_kept_public)
qed

lemma resync_plan_result:
  assumes d: "distinct (map ID (visibilities w))"
    and r: "resync_plan broker f sp off p w = Inr w'"
  shows "platforms w' = platforms w"
    and "distinct (map ID (visibilities w'))"
    and "pid \<noteq> ID p \<Longrightarrow> plan_rows pid w' = plan_rows pid w"
    and "plan_settled broker f sp off p w'"
proof -
  from r obtain pub where pub: "f broker off p = Inr pub"
    by (auto simp: resync_plan_eq split: sum.splits)
  have "platforms w' = platforms w \<and> distinct (map ID (visibilities w')) \<and>
    (pid \<noteq> ID p \<longrightarrow> plan_rows pid w' = plan_rows pid w) \<and> settled pub (sp p) (ID p) w'"
  proof (cases "sp p = []")
    case True
    with r pub have "resyncPublicPlanVisibilities w (plan_rows (ID p) w) pub (ID p) (ID broker) = Inr w'"
      by (simp add: resync_plan_eq)
    from caseA_result [OF d this] True show ?thesis by simp
  next
    case False
    with r pub have b: "resyncPlanVisibilitiesWithSupportedPlatforms w (plan_rows (ID p) w) pub (ID p)
        (ID broker) (sp p) = Inr w'"
      by (simp add: resync_plan_eq)
    show ?thesis
    proof (cases pub)
      case True
      with b caseB_public_result [OF d False, of "ID p" "ID broker" w'] show ?thesis by simp
    next
      case np: False
      with b caseB_private_result [OF d False, of "ID p" "ID broker" w'] show ?thesis by simp
    qed
  qed
  with pub show "platforms w' = platforms w"
    and "distinct (map ID (visibilities w'))"
    and "pid \<noteq> ID p \<Longrightarrow> plan_rows pid w' = plan_rows pid w"
    and "plan_settled broker f sp off p w'"
    by (simp_all add: plan_settled_def)
qed

lemma resync_plans_result:
  assumes "distinct (map ID (visibilities w))"
    and "resync_plans broker f sp off plans w = Inr w'"
    and "distinct (map ID plans)"
  shows "platforms w' = platforms w \<and> distinct (map ID (visibilities w')) \<and>
    (\<forall>pid. pid \<notin> ID ` set plans \<longrightarrow> plan_rows pid w' = plan_rows pid w) \<and>
    (\<forall>p\<in>set plans. plan_settled broker f sp off p w')"
  using assms
proof (induction plans arbitrary: w)
  case Nil
  then show ?case by simp
next
  case (Cons p plans)
  from Cons.prems(2) obtain w1 where
    one: "resync_plan broker f sp off p w = Inr w1" and
    rest: "resync_plans broker f sp off plans w1 = Inr w'"
    by (auto split: sum.splits)
  note r1 = resync_plan_result [OF Cons.prems(1) one]
  from Cons.prems(3) have dp: "distinct (map ID plans)" and np: "ID p \<notin> ID ` set plans"
    by simp_all
  from Cons.IH [OF r1(2) rest dp] have
    ih: "platforms w' = platforms w1" "distinct (map ID (visibilities w'))"
      "\<forall>pid. pid \<notin> ID ` set plans \<longrightarrow> plan_rows pid w' = plan_rows pid w1"
      "\<forall>p\<in>set plans. plan_settled broker f sp off p w'"
    by simp_all
  have "plan_settled broker f sp off p w'"
    using plan_settled_cong [OF _ ih(1) r1(4)] ih(3) np by simp
  moreover have "\<forall>pid. pid \<notin> ID ` set (p # plans) \<longrightarrow> plan_rows pid w' = plan_rows pid w"
    using ih(3) r1(3) by simp
  ultimately show ?case using ih r1(1) by simp
qed

lemma resync_services_result:
  assumes "distinct (map ID (visibilities w))"
    and "resync_services broker f sp offs w = Inr w'"
    and "distinct (map ID (concat (map Plans offs)))"
  shows "platforms w' = platforms w \<and> distinct (map ID (visibilities w')) \<and>
    (\<forall>pid. pid \<notin> ID ` set (concat (map Plans offs)) \<longrightarrow> plan_rows pid w' = plan_rows pid w) \<and>
    (\<forall>off\<in>set offs. \<forall>p\<in>set (Plans off). plan_settled broker f sp off p w')"
  using assms
proof (induction offs arbitrary: w)
  case Nil
  then show ?case by simp
next
  case (Cons off offs)
  from Cons.prems(2) obtain w1 where
    one: "resync_plans broker f sp off (Plans off) w = Inr w1" and
    rest: "resync_services broker f sp offs w1 = Inr w'"
    by (auto split: sum.splits)
  from Cons.prems(3) have dp: "distinct (map ID (Plans off))"
    and dr: "distinct (map ID (concat (map Plans offs)))"
    and disj: "ID ` set (Plans off) \<inter> ID ` set (concat (map Plans offs)) = {}"
    by (simp_all add: image_Union)
  from resync_plans_result [OF Cons.prems(1) one dp] have
    r1: "platforms w1 = platforms w" "distinct (map ID (visibilities w1))"
      "\<forall>pid. pid \<notin> ID ` set (Plans off) \<longrightarrow> plan_rows pid w1 = plan_rows pid w"
      "\<forall>p\<in>set (Plans off). plan_settled broker f sp off p w1"
    by simp_all
  from Cons.IH [OF r1(2) rest dr] have
    ih: "platforms w' = platforms w1" "distinct (map ID (visibilities w'))"
      "\<forall>pid. pid \<notin> ID ` set (concat (map Plans offs)) \<longrightarrow> plan_rows pid w' = plan_rows pid w1"
      "\<forall>off\<in>set offs. \<forall>p\<in>set (Plans off). plan_settled broker f sp off p w'"
    by simp_all
  have here: "\<forall>p\<in>set (Plans off). plan_settled broker f sp off p w'"
  proof
    fix p assume p: "p \<in> set (Plans off)"
    with disj have "ID p \<notin> ID ` set (concat (map Plans offs))" by blast
    with ih(3) have "plan_rows (ID p) w' = plan_rows (ID p) w1" by simp
    from plan_settled_cong [OF this ih(1)] r1(4) p
    show "plan_settled broker f sp off p w'" by simp
  qed
  have frame: "\<forall>pid. pid \<notin> ID ` set (concat (map Plans (off # offs))) \<longrightarrow>
      plan_rows pid w' = plan_rows pid w"
    using ih(3) r1(3) by (simp add: image_Un)
  from here frame ih r1(1) show ?case by simp
qed

lemma resync_plans_noop:
  "\<forall>p\<in>set plans. plan_settled broker f sp off p w \<Longrightarrow>
   resync_plans broker f sp off plans w = Inr w"
  by (induction plans) (simp_all add: settled_noop)

lemma resync_services_noop:
  "\<forall>off\<in>set offs. \<forall>p\<in>set (Plans off). plan_settled broker f sp off p w \<Longrightarrow>
   resync_services broker f sp offs w = Inr w"
  by (induction offs) (simp_all add: resync_plans_noop)

lemma find_SomeD: "find P xs = Some x \<Longrightarrow> x \<in> set xs \<and> P x"
  by (induction xs) (auto split: if_splits)

lemma remove_platform_filter:
  "distinct (map ID ps) \<Longrightarrow> remove_platform pid ps = filter (\<lambda>p. ID p \<noteq> pid) ps"
proof (induction ps)
  case Nil
  then show ?case by simp
next
  case (Cons p ps)
  show ?case
  proof (cases "pid = ID p")
    case True
    from Cons.prems have "ID p \<notin> ID ` set ps" by simp
    with True have "\<forall>q\<in>set ps. ID q \<noteq> pid" by (metis imageI)
    then have "filter (\<lambda>p. ID p \<noteq> pid) ps = ps" by (simp add: filter_id_conv)
    with True show ?thesis by simp
  next
    case False
    with Cons show ?thesis by auto
  qed
qed

lemma uncovered_filter:
  "distinct (map ID ps) \<Longrightarrow> uncovered ps vs = filter (\<lambda>p. \<not> covered_by vs p) ps"
proof (induction vs arbitrary: ps)
  case Nil
  then show ?case by (simp add: covered_by_def)
next
  case (Cons v vs)
  show ?case
  proof (cases "PlatformID v \<in> ID ` set ps \<and> Labels v = []")
    case True
    have d: "distinct (map ID (filter (\<lambda>p. ID p \<noteq> PlatformID v) ps))"
      using Cons.prems by (simp add: distinct_map_filter)
    have "uncovered ps (v # vs) = uncovered (filter (\<lambda>p. ID p \<noteq> PlatformID v) ps) vs"
      using True by (simp add: remove_platform_filter [OF Cons.prems])
    also have "\<dots> = filter (\<lambda>p. \<not> covered_by vs p) (filter (\<lambda>p. ID p \<noteq> PlatformID v) ps)"
      by (rule Cons.IH [OF d])
    also have "\<dots> = filter (\<lambda>p. \<not> covered_by (v # vs) p) ps"
      unfolding filter_filter
      by (rule filter_cong) (use True in \<open>auto simp: covered_by_def\<close>)
    finally show ?thesis .
  next
    case False
    have "uncovered ps (v # vs) = filter (\<lambda>p. \<not> covered_by vs p) ps"
      using False Cons.IH [OF Cons.prems] by auto
    also have "\<dots> = filter (\<lambda>p. \<not> covered_by (v # vs) p) ps"
      by (rule filter_cong) (use False in \<open>auto simp: covered_by_def\<close>)
    finally show ?thesis .
  qed
qed

lemma deleted_public_set:
  "distinct (map ID ps) \<Longrightarrow> distinct vs \<Longrightarrow>
   set (deleted_public ps vs) = {v \<in> set vs. \<not> caseB_public_keeps ps vs v}"
proof (induction vs arbitrary: ps)
  case Nil
  then show ?case by simp
next
  case (Cons v vs)
  from Cons.prems have v: "v \<notin> set vs" and dv: "distinct vs" by simp_all
  show ?case
  proof (cases "PlatformID v \<in> ID ` set ps \<and> Labels v = []")
    case True
    let ?ps' = "filter (\<lambda>p. ID p \<noteq> PlatformID v) ps"
    have d: "distinct (map ID ?ps')"
      using Cons.prems by (simp add: distinct_map_filter)
    have kv: "caseB_public_keeps ps (v # vs) v"
      using True by (simp add: caseB_public_keeps_def first_unlabeled_def)
    have ku: "caseB_public_keeps ?ps' vs u \<longleftrightarrow> caseB_public_keeps ps (v # vs) u" if "u \<in> set vs" for u
    proof (cases "PlatformID u = PlatformID v")
      case same: True
      have "u \<noteq> v" using that v by auto
      then have "\<not> caseB_public_keeps ps (v # vs) u"
        using True same by (auto simp: caseB_public_keeps_def first_unlabeled_def)
      moreover have "\<not> caseB_public_keeps ?ps' vs u"
        using same by (auto simp: caseB_public_keeps_def)
      ultimately show ?thesis by simp
    next
      case False
      then show ?thesis by (auto simp: caseB_public_keeps_def first_unlabeled_def)
    qed
    have "set (deleted_public ps (v # vs)) = set (deleted_public ?ps' vs)"
      using True by (simp add: remove_platform_filter [OF Cons.prems(1)])
    also have "\<dots> = {u \<in> set vs. \<not> caseB_public_keeps ?ps' vs u}"
      by (rule Cons.IH [OF d dv])
    also have "\<dots> = {u \<in> set (v # vs). \<not> caseB_public_keeps ps (v # vs) u}"
      using kv ku by auto
    finally show ?thesis .
  next
    case False
    have kv: "\<not> caseB_public_keeps ps (v # vs) v"
      using False v by (auto simp: caseB_public_keeps_def first_unlabeled_def dest: find_SomeD)
    have ku: "caseB_public_keeps ps vs u \<longleftrightarrow> caseB_public_keeps ps (v # vs) u" for u
      using False by (auto simp: caseB_public_keeps_def first_unlabeled_def)
    have "set (deleted_public ps (v # vs)) = insert v (set (deleted_public ps vs))"
      using False by auto
    also have "\<dots> = insert v {u \<in> set vs. \<not> caseB_public_keeps ps vs u}"
      by (simp add: Cons.IH [OF Cons.prems(1) dv])
    also have "\<dots> = {u \<in> set (v # vs). \<not> caseB_public_keeps ps (v # vs) u}"
      using kv ku by auto
    finally show ?thesis .
  qed
qed

lemma fresh_uuids_mono:
  "fresh_uuids n w \<Longrightarrow> uuids w1 = uuids w \<Longrightarrow> set (visibilities w1) \<subseteq> set (visibilities w) \<Longrightarrow>
   fresh_uuids n w1"
  by (auto simp: fresh_uuids_def)

lemma caseB_public_shape:
  assumes d: "distinct (map ID (visibilities w))"
    and dp: "distinct (map ID (platforms w))"
    and vs: "List_visibilities_by_service_plan_id w planID = Inr planVisibilities"
    and ps: "List_platforms_by_type_in w supportedPlatformTypes = Inr supportedPlatforms"
  shows "resyncPlanVisibilitiesWithSupportedPlatforms w planVisibilities True planID brokerID
           supportedPlatformTypes =
         persistVisibility_each (filter (\<lambda>p. \<not> covered_by planVisibilities p) supportedPlatforms)
           planID brokerID
           (w\<lparr>visibilities := filter (\<lambda>v. ServicePlanID v \<noteq> planID \<or>
                caseB_public_keeps supportedPlatforms planVisibilities v) (visibilities w)\<rparr>)"
proof -
  from vs have vs': "planVisibilities = plan_rows planID w"
    by (simp add: List_visibilities_by_service_plan_id_def plan_rows_def)
  from ps have ps': "supportedPlatforms = filter (\<lambda>p. Type p \<in> set supportedPlatformTypes) (platforms w)"
    by (simp add: List_platforms_by_type_in_def)
  have dps: "distinct (map ID supportedPlatforms)"
    using dp by (simp add: ps' distinct_map_filter)
  have dvs: "distinct planVisibilities"
    unfolding vs' by (rule distinct_plan_rows [OF d])
  have sub: "set planVisibilities = {v \<in> set (visibilities w). ServicePlanID v = planID}"
    by (auto simp: vs' plan_rows_def)
  have "filter (\<lambda>v. v \<notin> set (deleted_public supportedPlatforms planVisibilities)) (visibilities w) =
        filter (\<lambda>v. ServicePlanID v \<noteq> planID \<or> caseB_public_keeps supportedPlatforms planVisibilities v)
          (visibilities w)"
    by (rule filter_cong) (auto simp: deleted_public_set [OF dps dvs] sub)
  then show ?thesis
    unfolding resyncPlanVisibilitiesWithSupportedPlatforms_eq ps' [symmetric]
    using delete_ids_deleted_public_rows [OF d, of supportedPlatforms planID]
    by (simp add: vs' [symmetric] uncovered_filter [OF dps])
qed

section \<open>Visibility reconciler: results\<close>

text \<open>The definitions a concrete run unfolds.\<close>

lemmas example_defs =
  example_clock_def visibility_row_def platform_row_def paid_row_def world_A_def world_A'_def wildcard_rows_def
  world_W_def row_b1_def row_b2_def row_b3_def row_b4_def row_b5_def example_platforms_def
  example_types_def world_B_def world_B_public_def world_B_private_def example_plan_def
  example_offering_def example_broker_def free_plans_public_def example_supportedPlatforms_def
  world_C_def world_C'_def

lemmas reconciler_defs =
  resync_def resync_plan_def resyncPublicPlanVisibilities_def
  resyncPlanVisibilitiesWithSupportedPlatforms_def platformsAnyMatchesVisibility_def
  remove_at_def persistVisibility_def Create_visibility_def Delete_visibility_by_id_def
  List_visibilities_by_service_plan_id_def List_platforms_by_type_in_def Let_def

text \<open>
  C1, as the specification words it, says that labeled visibility rows survive the
  resync of a plan that supports all platforms. They do not: for a public plan the loop
  deletes every row with a non-empty platform id and never looks at the labels. Here the
  only row of the plan has labels and the platform id \<open>pl-1\<close>; the plan is public; the
  row is deleted and a row with empty platform id is created.
\<close>

theorem labeled_row_deleted_when_public:
  "Labels paid_row \<noteq> [] \<and> paid_row \<in> set (visibilities world_A) \<and>
   List_visibilities_by_service_plan_id world_A ''plan-A'' = Inr [paid_row] \<and>
   resyncPublicPlanVisibilities world_A [paid_row] True ''plan-A'' ''broker-1'' = Inr world_A' \<and>
   paid_row \<notin> set (visibilities world_A')"
  by (simp add: example_defs reconciler_defs)

text \<open>
  C1, amended. For a plan whose supported-platforms list is empty, with the plan's rows
  as listed from a table whose row identifiers are distinct, \<^verbatim>\<open>resyncPublicPlanVisibilities\<close>
  returns without error exactly in the following way. Every row of the plan whose
  platform id contradicts the target state is deleted: for a public plan the rows with a
  non-empty platform id, for a plan that is not public the rows with an empty platform
  id. Every other row, labeled or not, and every row of another plan stays where it is.
  If the plan is public and none of its rows has an empty platform id, exactly one row
  is appended, with empty platform id, no labels and the next generated identifier, which
  must exist and differ from the identifiers of the rows that stay; otherwise no row is
  created.
\<close>

theorem resyncPublicPlanVisibilities_result:
  assumes "distinct (map ID (visibilities w))"
    and "List_visibilities_by_service_plan_id w planID = Inr planVisibilities"
  shows "resyncPublicPlanVisibilities w planVisibilities isPlanPublic planID brokerID = Inr w' \<longleftrightarrow>
     (if isPlanPublic \<and> (\<forall>v\<in>set planVisibilities. PlatformID v \<noteq> [])
      then uuids w \<noteq> [] \<and>
           hd (uuids w) \<notin>
             set (map ID (filter (\<lambda>v. ServicePlanID v \<noteq> planID \<or> caseA_keeps isPlanPublic v)
                            (visibilities w))) \<and>
           w' = w\<lparr>visibilities :=
                    filter (\<lambda>v. ServicePlanID v \<noteq> planID \<or> caseA_keeps isPlanPublic v) (visibilities w) @
                    [stored_visibility w [] planID],
                  next_paging_sequence := next_paging_sequence w + 1,
                  uuids := tl (uuids w),
                  clock_reads := clock_reads w + 1\<rparr>
      else w' = w\<lparr>visibilities :=
                    filter (\<lambda>v. ServicePlanID v \<noteq> planID \<or> caseA_keeps isPlanPublic v) (visibilities w)\<rparr>)"
proof -
  let ?kept = "filter (\<lambda>v. ServicePlanID v \<noteq> planID \<or> caseA_keeps isPlanPublic v) (visibilities w)"
  from assms(2) have vs: "planVisibilities = plan_rows planID w"
    by (simp add: List_visibilities_by_service_plan_id_def plan_rows_def)
  have w1: "delete_ids (ID ` {v \<in> set (plan_rows planID w). \<not> caseA_keeps isPlanPublic v}) w =
      w\<lparr>visibilities := ?kept\<rparr>"
    by (rule delete_ids_plan_rows [OF assms(1)])
  have sv: "stored_visibility (w\<lparr>visibilities := xs\<rparr>) [] planID = stored_visibility w [] planID"
    for xs by (simp add: stored_visibility_def)
  show ?thesis
    unfolding vs resyncPublicPlanVisibilities_eq w1
    by (auto simp: persistVisibility_Inr_iff sv)
qed

theorem resyncPublicPlanVisibilities_result_witness:
  "distinct (map ID (visibilities world_A)) \<and>
   List_visibilities_by_service_plan_id world_A ''plan-A'' = Inr [paid_row] \<and>
   resyncPublicPlanVisibilities world_A [paid_row] True ''plan-A'' ''broker-1'' = Inr world_A'"
proof -
  have h1: "distinct (map ID (visibilities world_A))"
    by (simp add: example_defs)
  have h2: "List_visibilities_by_service_plan_id world_A ''plan-A'' = Inr [paid_row]"
    by (simp add: example_defs reconciler_defs)
  from resyncPublicPlanVisibilities_result [OF h1 h2, of True "''broker-1''" world_A']
  have "resyncPublicPlanVisibilities world_A [paid_row] True ''plan-A'' ''broker-1'' = Inr world_A'"
    by (simp add: example_defs caseA_keeps_def stored_visibility_def)
  with h1 h2 show ?thesis by simp
qed

text \<open>
  C2, as the specification words it, says that a visibility paired with a supported
  platform is kept when it is unlabeled and preserved when it is labeled. Whether it
  stays depends on the plan being public. For the public plan \<open>plan-B\<close> the labeled row
  \<open>b3\<close>, paired with the supported platform \<open>pl-2\<close>, is deleted (and a new, label-free
  row for \<open>pl-2\<close> is created); for the same plan not public the unlabeled row \<open>b1\<close>,
  paired with the supported platform \<open>pl-1\<close>, is deleted.
\<close>

theorem matched_rows_deleted:
  "List_visibilities_by_service_plan_id world_B ''plan-B'' = Inr [row_b1, row_b2, row_b3, row_b4] \<and>
   List_platforms_by_type_in world_B example_types =
     Inr [platform_row ''pl-1'' ''kubernetes'', platform_row ''pl-2'' ''cloudfoundry''] \<and>
   PlatformID row_b3 = ''pl-2'' \<and> Labels row_b3 \<noteq> [] \<and>
   resyncPlanVisibilitiesWithSupportedPlatforms world_B [row_b1, row_b2, row_b3, row_b4] True
     ''plan-B'' ''broker-1'' example_types = Inr world_B_public \<and>
   row_b3 \<notin> set (visibilities world_B_public) \<and>
   PlatformID row_b1 = ''pl-1'' \<and> Labels row_b1 = [] \<and>
   resyncPlanVisibilitiesWithSupportedPlatforms world_B [row_b1, row_b2, row_b3, row_b4] False
     ''plan-B'' ''broker-1'' example_types = Inr world_B_private \<and>
   row_b1 \<notin> set (visibilities world_B_private)"
  by (simp add: example_defs reconciler_defs)

text \<open>
  C2, amended. For a plan whose supported-platforms list is not empty, with the plan's
  rows and the platforms of the supported types as listed from tables whose identifiers
  are distinct:
  \<^item> when the plan is public, a row of the plan stays exactly when it names a supported
    platform and is the first unlabeled row in the listing for that platform; every
    other row of the plan (labeled, naming no supported platform, or a later unlabeled
    row for a platform already covered) is deleted; afterwards one row without labels is
    appended for each supported platform that no unlabeled row of the plan names, in the
    order of the platforms, and the call succeeds when as many fresh identifiers can be
    generated;
  \<^item> when the plan is not public, the call succeeds, a row of the plan stays exactly
    when it names a supported platform and has labels, every other row of the plan is
    deleted, and no row is created.
  Rows of other plans stay in both cases.
\<close>

theorem resyncPlanVisibilitiesWithSupportedPlatforms_result:
  assumes "distinct (map ID (visibilities w))"
    and "distinct (map ID (platforms w))"
    and "List_visibilities_by_service_plan_id w planID = Inr planVisibilities"
    and "List_platforms_by_type_in w supportedPlatformTypes = Inr supportedPlatforms"
  shows "if isPlanPublic
     then (fresh_uuids (length (filter (\<lambda>p. \<not> covered_by planVisibilities p) supportedPlatforms)) w \<longrightarrow>
             (\<exists>w'. resyncPlanVisibilitiesWithSupportedPlatforms w planVisibilities isPlanPublic planID
                     brokerID supportedPlatformTypes = Inr w')) \<and>
          (\<forall>w'. resyncPlanVisibilitiesWithSupportedPlatforms w planVisibilities isPlanPublic planID
                     brokerID supportedPlatformTypes = Inr w' \<longrightarrow>
             (\<exists>created.
                visibilities w' =
                  filter (\<lambda>v. ServicePlanID v \<noteq> planID \<or>
                               caseB_public_keeps supportedPlatforms planVisibilities v) (visibilities w) @
                  created \<and>
                map PlatformID created =
                  map ID (filter (\<lambda>p. \<not> covered_by planVisibilities p) supportedPlatforms) \<and>
                (\<forall>c\<in>set created. Labels c = [] \<and> ServicePlanID c = planID) \<and>
                platforms w' = platforms w))
     else resyncPlanVisibilitiesWithSupportedPlatforms w planVisibilities isPlanPublic planID
            brokerID supportedPlatformTypes =
          Inr (w\<lparr>visibilities :=
                   filter (\<lambda>v. ServicePlanID v \<noteq> planID \<or> caseB_private_keeps supportedPlatforms v)
                     (visibilities w)\<rparr>)"
proof (cases isPlanPublic)
  case True
  let ?w1 = "w\<lparr>visibilities := filter (\<lambda>v. ServicePlanID v \<noteq> planID \<or>
                caseB_public_keeps supportedPlatforms planVisibilities v) (visibilities w)\<rparr>"
  let ?un = "filter (\<lambda>p. \<not> covered_by planVisibilities p) supportedPlatforms"
  note shape = caseB_public_shape [OF assms, of brokerID]
  have a: "\<exists>w'. persistVisibility_each ?un planID brokerID ?w1 = Inr w'"
    if "fresh_uuids (length ?un) w"
    by (rule persistVisibility_each_succeeds) (rule fresh_uuids_mono [OF that], auto)
  have b: "\<exists>created. visibilities w' = visibilities ?w1 @ created \<and>
      map PlatformID created = map ID ?un \<and>
      (\<forall>c\<in>set created. Labels c = [] \<and> ServicePlanID c = planID) \<and> platforms w' = platforms w"
    if "persistVisibility_each ?un planID brokerID ?w1 = Inr w'" for w'
    using persistVisibility_each_Inr [OF that] by auto
  from True have ip: "isPlanPublic = True" by simp
  from a b show ?thesis
    unfolding ip shape by simp
next
  case False
  from assms(3) have vs': "planVisibilities = plan_rows planID w"
    by (simp add: List_visibilities_by_service_plan_id_def plan_rows_def)
  from assms(4) have ps': "supportedPlatforms = filter (\<lambda>p. Type p \<in> set supportedPlatformTypes) (platforms w)"
    by (simp add: List_platforms_by_type_in_def)
  from False have ip: "isPlanPublic = False" by simp
  show ?thesis
    unfolding ip vs'
    using delete_ids_plan_rows [OF assms(1), of planID "caseB_private_keeps supportedPlatforms"]
    by (simp add: resyncPlanVisibilitiesWithSupportedPlatforms_eq ps' [symmetric])
qed

theorem resyncPlanVisibilitiesWithSupportedPlatforms_result_witness:
  "distinct (map ID (visibilities world_B)) \<and> distinct (map ID (platforms world_B)) \<and>
   List_visibilities_by_service_plan_id world_B ''plan-B'' = Inr [row_b1, row_b2, row_b3, row_b4] \<and>
   List_platforms_by_type_in world_B example_types =
     Inr [platform_row ''pl-1'' ''kubernetes'', platform_row ''pl-2'' ''cloudfoundry''] \<and>
   fresh_uuids 1 world_B \<and>
   resyncPlanVisibilitiesWithSupportedPlatforms world_B [row_b1, row_b2, row_b3, row_b4] True
     ''plan-B'' ''broker-1'' example_types = Inr world_B_public \<and>
   (\<exists>created. visibilities world_B_public = [row_b1, row_b5] @ created \<and>
      map PlatformID created = [''pl-2''] \<and>
      (\<forall>c\<in>set created. Labels c = [] \<and> ServicePlanID c = ''plan-B'')) \<and>
   resyncPlanVisibilitiesWithSupportedPlatforms world_B [row_b1, row_b2, row_b3, row_b4] False
     ''plan-B'' ''broker-1'' example_types = Inr world_B_private"
proof -
  let ?vs = "[row_b1, row_b2, row_b3, row_b4]"
  let ?ps = "[platform_row ''pl-1'' ''kubernetes'', platform_row ''pl-2'' ''cloudfoundry'']"
  have h1: "distinct (map ID (visibilities world_B))"
    by (simp add: example_defs)
  have h2: "distinct (map ID (platforms world_B))"
    by (simp add: example_defs)
  have h3: "List_visibilities_by_service_plan_id world_B ''plan-B'' = Inr ?vs"
    by (simp add: example_defs reconciler_defs)
  have h4: "List_platforms_by_type_in world_B example_types = Inr ?ps"
    by (simp add: example_defs reconciler_defs)
  have un: "filter (\<lambda>p. \<not> covered_by ?vs p) ?ps = [platform_row ''pl-2'' ''cloudfoundry'']"
    by (simp add: example_defs covered_by_def)
  have kept: "filter (\<lambda>v. ServicePlanID v \<noteq> ''plan-B'' \<or> caseB_public_keeps ?ps ?vs v)
      (visibilities world_B) = [row_b1, row_b5]"
    by (simp add: example_defs caseB_public_keeps_def first_unlabeled_def)
  have fr: "fresh_uuids 1 world_B"
    by (simp add: example_defs fresh_uuids_def)
  have run: "resyncPlanVisibilitiesWithSupportedPlatforms world_B ?vs True
            ''plan-B'' ''broker-1'' example_types = Inr world_B_public"
    by (simp add: example_defs reconciler_defs)
  note public_case =
    resyncPlanVisibilitiesWithSupportedPlatforms_result [OF h1 h2 h3 h4, of True "''broker-1''",
      simplified if_True]
  from public_case [THEN conjunct2, rule_format, OF run]
  have pub: "\<exists>created. visibilities world_B_public = [row_b1, row_b5] @ created \<and>
      map PlatformID created = [''pl-2''] \<and>
      (\<forall>c\<in>set created. Labels c = [] \<and> ServicePlanID c = ''plan-B'')"
    unfolding kept un by (auto simp: platform_row_def)
  from resyncPlanVisibilitiesWithSupportedPlatforms_result [OF h1 h2 h3 h4, of False "''broker-1''"]
  have priv: "resyncPlanVisibilitiesWithSupportedPlatforms world_B ?vs False
     ''plan-B'' ''broker-1'' example_types = Inr world_B_private"
    by (simp add: example_defs caseB_private_keeps_def)
  from h1 h2 h3 h4 fr run pub priv show ?thesis by simp
qed

text \<open>
  C3: the reconciler is idempotent. For every broker whose plans have distinct
  identifiers, every pair of callbacks and every world whose visibility rows have
  distinct identifiers: if \<^verbatim>\<open>resync\<close> returns without error, then \<^verbatim>\<open>resync\<close> with the
  same inputs on the world it produced returns without error and leaves that world as
  it is: the same visibility rows in the same order, no identifier generated, nothing
  deleted and nothing created.
\<close>

theorem resync_idempotent:
  assumes "distinct (map ID (visibilities w))"
    and "distinct (map ID (concat (map Plans (Services broker))))"
    and "resync broker w isCatalogPlanPublicFunc supportedPlatforms = Inr w'"
  shows "resync broker w' isCatalogPlanPublicFunc supportedPlatforms = Inr w'"
  using resync_services_result [OF assms(1) assms(3) [unfolded resync_def] assms(2)]
  by (simp add: resync_def resync_services_noop)

theorem resync_idempotent_witness:
  "distinct (map ID (visibilities world_C)) \<and>
   distinct (map ID (concat (map Plans (Services example_broker)))) \<and>
   resync example_broker world_C free_plans_public example_supportedPlatforms = Inr world_C' \<and>
   resync example_broker world_C' free_plans_public example_supportedPlatforms = Inr world_C'"
proof -
  have h1: "distinct (map ID (visibilities world_C))"
    by (simp add: example_defs)
  have h2: "distinct (map ID (concat (map Plans (Services example_broker))))"
    by (simp add: example_defs)
  have h3: "resync example_broker world_C free_plans_public example_supportedPlatforms =
      Inr world_C'"
    by (simp add: example_defs reconciler_defs)
  from resync_idempotent [OF h1 h2 h3] h1 h2 h3 show ?thesis by simp
qed

text \<open>
  C4, as the specification words it, says that of several unlabeled rows for the same
  plan and platform, the wildcard among them, the first is kept and the others are
  deleted. For a public plan that supports all platforms, two unlabeled rows with empty
  platform id both stay: the world is unchanged. And for a plan with supported platforms
  that is not public, the first of two unlabeled rows for the supported platform
  \<open>pl-1\<close> is deleted like the second.
\<close>

theorem unlabeled_duplicates_without_tie_break:
  "Labels (visibility_row ''w1'' ''plan-A'' [] []) = [] \<and>
   Labels (visibility_row ''w2'' ''plan-A'' [] []) = [] \<and>
   List_visibilities_by_service_plan_id world_W ''plan-A'' = Inr wildcard_rows \<and>
   resyncPublicPlanVisibilities world_W wildcard_rows True ''plan-A'' ''broker-1'' = Inr world_W \<and>
   visibilities world_W =
     [visibility_row ''w1'' ''plan-A'' [] [], visibility_row ''w2'' ''plan-A'' [] []] \<and>
   List_visibilities_by_service_plan_id world_B ''plan-B'' = Inr [row_b1, row_b2, row_b3, row_b4] \<and>
   Labels row_b1 = [] \<and> Labels row_b2 = [] \<and> PlatformID row_b1 = PlatformID row_b2 \<and>
   resyncPlanVisibilitiesWithSupportedPlatforms world_B [row_b1, row_b2, row_b3, row_b4] False
     ''plan-B'' ''broker-1'' example_types = Inr world_B_private \<and>
   row_b1 \<notin> set (visibilities world_B_private)"
  by (simp add: example_defs reconciler_defs)

text \<open>
  C4, amended. When a public plan with a non-empty supported-platforms list is
  resynced, with rows and platforms listed from tables whose identifiers are distinct,
  an unlabeled row of the plan that names a supported platform is in the table
  afterwards exactly when it is the first unlabeled row of the listing for that
  platform: the first such row encountered is kept and all the others are deleted.
\<close>

theorem first_unlabeled_visibility_kept:
  assumes "distinct (map ID (visibilities w))"
    and "distinct (map ID (platforms w))"
    and "List_visibilities_by_service_plan_id w planID = Inr planVisibilities"
    and "List_platforms_by_type_in w supportedPlatformTypes = Inr supportedPlatforms"
    and "resyncPlanVisibilitiesWithSupportedPlatforms w planVisibilities True planID brokerID
           supportedPlatformTypes = Inr w'"
    and "v \<in> set planVisibilities"
    and "Labels v = []"
    and "PlatformID v \<in> ID ` set supportedPlatforms"
  shows "v \<in> set (visibilities w') \<longleftrightarrow> first_unlabeled planVisibilities (PlatformID v) = Some v"
proof -
  let ?w1 = "w\<lparr>visibilities := filter (\<lambda>v. ServicePlanID v \<noteq> planID \<or>
                caseB_public_keeps supportedPlatforms planVisibilities v) (visibilities w)\<rparr>"
  let ?un = "filter (\<lambda>p. \<not> covered_by planVisibilities p) supportedPlatforms"
  from assms(5) have "persistVisibility_each ?un planID brokerID ?w1 = Inr w'"
    unfolding caseB_public_shape [OF assms(1-4), of brokerID] .
  from persistVisibility_each_Inr [OF this] obtain created where
    c: "visibilities w' = visibilities ?w1 @ created" "map PlatformID created = map ID ?un"
    by blast
  from assms(3,6) have v: "v \<in> set (visibilities w)" "ServicePlanID v = planID"
    by (auto simp: List_visibilities_by_service_plan_id_def)
  have "v \<notin> set created"
  proof
    assume "v \<in> set created"
    then have "PlatformID v \<in> set (map PlatformID created)" by simp
    with c(2) obtain p where "p \<in> set ?un" "ID p = PlatformID v" by auto
    then have "\<not> covered_by planVisibilities p" "ID p = PlatformID v" by simp_all
    with assms(6,7) show False by (auto simp: covered_by_def)
  qed
  with c(1) v assms(8) show ?thesis by (auto simp: caseB_public_keeps_def)
qed

theorem first_unlabeled_visibility_kept_witness:
  "distinct (map ID (visibilities world_B)) \<and> distinct (map ID (platforms world_B)) \<and>
   List_visibilities_by_service_plan_id world_B ''plan-B'' = Inr [row_b1, row_b2, row_b3, row_b4] \<and>
   List_platforms_by_type_in world_B example_types =
     Inr [platform_row ''pl-1'' ''kubernetes'', platform_row ''pl-2'' ''cloudfoundry''] \<and>
   resyncPlanVisibilitiesWithSupportedPlatforms world_B [row_b1, row_b2, row_b3, row_b4] True
     ''plan-B'' ''broker-1'' example_types = Inr world_B_public \<and>
   row_b2 \<in> set [row_b1, row_b2, row_b3, row_b4] \<and> Labels row_b2 = [] \<and>
   PlatformID row_b2 \<in>
     ID ` set [platform_row ''pl-1'' ''kubernetes'', platform_row ''pl-2'' ''cloudfoundry''] \<and>
   first_unlabeled [row_b1, row_b2, row_b3, row_b4] (PlatformID row_b2) = Some row_b1 \<and>
   row_b1 \<noteq> row_b2 \<and> row_b2 \<notin> set (visibilities world_B_public)"
proof -
  let ?vs = "[row_b1, row_b2, row_b3, row_b4]"
  let ?ps = "[platform_row ''pl-1'' ''kubernetes'', platform_row ''pl-2'' ''cloudfoundry'']"
  have h1: "distinct (map ID (visibilities world_B))"
    by (simp add: example_defs)
  have h2: "distinct (map ID (platforms world_B))"
    by (simp add: example_defs)
  have h3: "List_visibilities_by_service_plan_id world_B ''plan-B'' = Inr ?vs"
    by (simp add: example_defs reconciler_defs)
  have h4: "List_platforms_by_type_in world_B example_types = Inr ?ps"
    by (simp add: example_defs reconciler_defs)
  have h5: "resyncPlanVisibilitiesWithSupportedPlatforms world_B ?vs True
     ''plan-B'' ''broker-1'' example_types = Inr world_B_public"
    by (simp add: example_defs reconciler_defs)
  have h6: "row_b2 \<in> set ?vs" by simp
  have h7: "Labels row_b2 = []" by (simp add: example_defs)
  have h8: "PlatformID row_b2 \<in> ID ` set ?ps" by (simp add: example_defs)
  have f: "first_unlabeled ?vs (PlatformID row_b2) = Some row_b1"
    by (simp add: example_defs first_unlabeled_def)
  have ne: "row_b1 \<noteq> row_b2" by (simp add: example_defs)
  from first_unlabeled_visibility_kept [OF h1 h2 h3 h4 h5 h6 h7 h8] f ne
  have "row_b2 \<notin> set (visibilities world_B_public)" by simp
  with h1 h2 h3 h4 h5 h6 h7 h8 f ne show ?thesis by simp
qed

section \<open>Broker API: results\<close>

lemmas api_example_defs =
  changed_catalog_def example_instance_def example_manager_def empty_patch_def text_patch_def
  invalid_json_patch_def second_broker_def crowded_manager_def rename_body_def rename_patch_def

lemma catalog_conflict_iff: "catalog_conflict stored fetched \<longleftrightarrow> id_changed_name_kept stored fetched"
  by (simp add: catalog_conflict_def offering_id_changed_def plan_id_changed_def
      id_changed_name_kept_def list_ex_iff)

text \<open>
  C5: a PATCH of an existing broker, with a valid body, whose fetched catalog is valid
  and gives an offering, or a plan of an offering matched by catalog id, a changed
  catalog id under an unchanged catalog name, fails with 409 Conflict; the broker rows, and so the stored catalog blob, offerings and plans of the
  broker, the instances and the visibility storage are what they were before the PATCH.
\<close>

theorem patch_with_changed_catalog_id_conflicts:
  assumes "content_type_json request"
    and "json_body request = Some body"
    and "find (\<lambda>b. ID b = brokerID) (brokers sm) = Some old"
    and "catalog_reply sm (BrokerURL (apply_patch old body)) = CatalogBody raw (Some fetched)"
    and "list_all offering_valid fetched"
    and "id_changed_name_kept (Services old) fetched"
  shows "fst (patch_broker isCatalogPlanPublicFunc supportedPlatforms sm brokerID request) =
           Inl Conflict \<and>
         status_code Conflict = 409 \<and>
         brokers (snd (patch_broker isCatalogPlanPublicFunc supportedPlatforms sm brokerID request)) =
           brokers sm \<and>
         find (\<lambda>b. ID b = brokerID)
           (brokers (snd (patch_broker isCatalogPlanPublicFunc supportedPlatforms sm brokerID
              request))) = Some old \<and>
         instances (snd (patch_broker isCatalogPlanPublicFunc supportedPlatforms sm brokerID
              request)) = instances sm \<and>
         storage (snd (patch_broker isCatalogPlanPublicFunc supportedPlatforms sm brokerID request)) =
           storage sm"
  using assms by (simp add: patch_broker_def Let_def catalog_conflict_iff)

theorem patch_with_changed_catalog_id_conflicts_witness:
  "content_type_json empty_patch \<and>
   find (\<lambda>b. ID b = ''broker-1'') (brokers example_manager) = Some example_broker \<and>
   catalog_reply example_manager ''http://srv'' = CatalogBody ''{changed}'' (Some changed_catalog) \<and>
   list_all offering_valid changed_catalog \<and>
   id_changed_name_kept (Services example_broker) changed_catalog \<and>
   fst (patch_broker free_plans_public example_supportedPlatforms example_manager ''broker-1''
          empty_patch) = Inl Conflict \<and>
   Catalog (the (find (\<lambda>b. ID b = ''broker-1'')
     (brokers (snd (patch_broker free_plans_public example_supportedPlatforms example_manager
        ''broker-1'' empty_patch))))) = ''{}''"
proof -
  let ?body = "\<lparr> patch_name = None, patch_description = None,
                  patch_broker_url = None, patch_credentials = None \<rparr>"
  have h1: "content_type_json empty_patch" by (simp add: api_example_defs)
  have h2: "json_body empty_patch = Some ?body" by (simp add: api_example_defs)
  have h3: "find (\<lambda>b. ID b = ''broker-1'') (brokers example_manager) = Some example_broker"
    by (simp add: api_example_defs example_defs)
  have ap: "apply_patch example_broker ?body = example_broker"
    by (simp add: apply_patch_def)
  have url: "BrokerURL example_broker = ''http://srv''" by (simp add: example_defs)
  have h5: "catalog_reply example_manager (BrokerURL (apply_patch example_broker ?body)) =
      CatalogBody ''{changed}'' (Some changed_catalog)"
    by (simp add: ap url catalog_reply_def example_manager_def)
  have h6: "list_all offering_valid changed_catalog"
    by (simp add: api_example_defs example_defs offering_valid_def plan_valid_def)
  have h7: "id_changed_name_kept (Services example_broker) changed_catalog"
    by (simp add: id_changed_name_kept_def api_example_defs example_defs)
  from patch_with_changed_catalog_id_conflicts [OF h1 h2 h3 h5 h6 h7,
      of free_plans_public example_supportedPlatforms]
    h1 h3 h5 h6 h7 ap url
  show ?thesis by (simp add: example_broker_def)
qed

text \<open>
  C6: the DELETE of a broker that owns a plan referenced by a service instance is refused
  with 409 ExistingReferenceEntity, and the state, the broker row with its offerings and
  plans in it, is unchanged.
\<close>

theorem delete_broker_with_instance_refused:
  assumes "find (\<lambda>b. ID b = brokerID) (brokers sm) = Some b"
    and "p \<in> set (concat (map Plans (Services b)))"
    and "i \<in> set (instances sm)"
    and "instance_ServicePlanID i = ID p"
  shows "delete_broker sm brokerID = (Inl ExistingReferenceEntity, sm) \<and>
         status_code ExistingReferenceEntity = 409"
proof -
  from assms(3,4) have "referenced (instances sm) p"
    by (auto simp: referenced_def list_ex_iff)
  with assms(2) have "list_ex (referenced (instances sm)) (concat (map Plans (Services b)))"
    unfolding list_ex_iff by blast
  with assms(1) show ?thesis by (simp add: delete_broker_def)
qed

theorem delete_broker_with_instance_refused_witness:
  "find (\<lambda>b. ID b = ''broker-1'') (brokers example_manager) = Some example_broker \<and>
   example_plan ''plan-A'' \<in> set (concat (map Plans (Services example_broker))) \<and>
   example_instance \<in> set (instances example_manager) \<and>
   instance_ServicePlanID example_instance = ID (example_plan ''plan-A'') \<and>
   delete_broker example_manager ''broker-1'' = (Inl ExistingReferenceEntity, example_manager)"
proof -
  have h1: "find (\<lambda>b. ID b = ''broker-1'') (brokers example_manager) = Some example_broker"
    by (simp add: api_example_defs example_defs)
  have h2: "example_plan ''plan-A'' \<in> set (concat (map Plans (Services example_broker)))"
    by (simp add: example_defs)
  have h3: "example_instance \<in> set (instances example_manager)"
    by (simp add: example_manager_def)
  have h4: "instance_ServicePlanID example_instance = ID (example_plan ''plan-A'')"
    by (simp add: example_instance_def example_plan_def)
  from delete_broker_with_instance_refused [OF h1 h2 h3 h4] h1 h2 h3 h4
  show ?thesis by simp
qed

text \<open>
  C7, as the specification words it, says that every PATCH against an existing broker
  fetches the catalog exactly once. A PATCH that request validation rejects fetches
  nothing: one whose content type is not JSON is answered with 415, one whose body is
  not valid JSON with 400, and in both cases the broker exists, the state after the
  request is the state before it, and the broker server has received no catalog
  request. The API test "when content type is not JSON" asserts this count of zero for
  PATCH, the test "when request body is not a valid JSON" for POST.
\<close>

theorem patch_rejected_by_validation_fetches_nothing:
  "find (\<lambda>b. ID b = ''broker-1'') (brokers example_manager) = Some example_broker \<and>
   CatalogEndpointRequests example_manager = [] \<and>
   patch_broker free_plans_public example_supportedPlatforms example_manager ''broker-1''
     text_patch = (Inl UnsupportedMediaType, example_manager) \<and>
   patch_broker free_plans_public example_supportedPlatforms example_manager ''broker-1''
     invalid_json_patch = (Inl BadRequest, example_manager)"
  by (simp add: patch_broker_def api_example_defs example_defs)

text \<open>
  C7, amended: every PATCH against an existing broker that passes request validation
  (JSON content type, well-formed body) triggers exactly one fetch of the catalog, from
  the URL the broker has after the PATCH, whatever the body changes, also when it is
  empty, and whatever the outcome of the request, a conflict on the broker's name
  included.
\<close>

theorem patch_fetches_catalog_once:
  assumes "content_type_json request"
    and "json_body request = Some body"
    and "find (\<lambda>b. ID b = brokerID) (brokers sm) = Some old"
  shows "CatalogEndpointRequests
           (snd (patch_broker isCatalogPlanPublicFunc supportedPlatforms sm brokerID request)) =
         CatalogEndpointRequests sm @ [BrokerURL (apply_patch old body)]"
  using assms
  by (simp add: patch_broker_def Let_def split: CatalogReply.splits option.splits sum.splits)

theorem patch_fetches_catalog_once_witness:
  "content_type_json empty_patch \<and>
   find (\<lambda>b. ID b = ''broker-1'') (brokers example_manager) = Some example_broker \<and>
   CatalogEndpointRequests example_manager = [] \<and>
   CatalogEndpointRequests
     (snd (patch_broker free_plans_public example_supportedPlatforms example_manager ''broker-1''
        empty_patch)) = [''http://srv''] \<and>
   content_type_json rename_patch \<and> json_body rename_patch = Some rename_body \<and>
   find (\<lambda>b. ID b = ''broker-1'') (brokers crowded_manager) = Some example_broker \<and>
   name_taken crowded_manager (apply_patch example_broker rename_body) \<and>
   CatalogEndpointRequests crowded_manager = [] \<and>
   CatalogEndpointRequests
     (snd (patch_broker free_plans_public example_supportedPlatforms crowded_manager ''broker-1''
        rename_patch)) = [''http://srv'']"
proof -
  let ?body = "\<lparr> patch_name = None, patch_description = None,
                  patch_broker_url = None, patch_credentials = None \<rparr>"
  have h1: "content_type_json empty_patch" by (simp add: api_example_defs)
  have h2: "json_body empty_patch = Some ?body" by (simp add: api_example_defs)
  have h3: "find (\<lambda>b. ID b = ''broker-1'') (brokers example_manager) = Some example_broker"
    by (simp add: api_example_defs example_defs)
  have ap: "apply_patch example_broker ?body = example_broker"
    by (simp add: apply_patch_def)
  have url: "BrokerURL example_broker = ''http://srv''" by (simp add: example_defs)
  have e: "CatalogEndpointRequests example_manager = []" by (simp add: example_manager_def)
  have g1: "content_type_json rename_patch" by (simp add: api_example_defs)
  have g2: "json_body rename_patch = Some rename_body" by (simp add: api_example_defs)
  have g3: "find (\<lambda>b. ID b = ''broker-1'') (brokers crowded_manager) = Some example_broker"
    by (simp add: api_example_defs example_defs)
  have url': "BrokerURL (apply_patch example_broker rename_body) = ''http://srv''"
    by (simp add: apply_patch_def rename_body_def example_defs)
  have taken: "name_taken crowded_manager (apply_patch example_broker rename_body)"
    by (simp add: name_taken_def apply_patch_def api_example_defs example_defs)
  have e': "CatalogEndpointRequests crowded_manager = []"
    by (simp add: crowded_manager_def example_manager_def)
  from patch_fetches_catalog_once [OF h1 h2 h3, of free_plans_public example_supportedPlatforms]
    ap url e
  have first: "CatalogEndpointRequests
     (snd (patch_broker free_plans_public example_supportedPlatforms example_manager ''broker-1''
        empty_patch)) = [''http://srv'']"
    by simp
  from patch_fetches_catalog_once [OF g1 g2 g3, of free_plans_public example_supportedPlatforms]
    url' e'
  have second: "CatalogEndpointRequests
     (snd (patch_broker free_plans_public example_supportedPlatforms crowded_manager ''broker-1''
        rename_patch)) = [''http://srv'']"
    by simp
  from h1 h3 e first g1 g2 g3 taken e' second show ?thesis by simp
qed

end
